theory Spec2Isabelle
  imports Main "HOL-Library.Word" "HOL-Library.Sublist"
begin

unbundle bit_operations_syntax

section \<open>Text and bytes\<close>

text \<open>
  The proxy handles two kinds of text. What \<open>http.server\<close> hands to the handler (the
  request line and the header block) is decoded as ISO-8859-1, one code point below 256
  per byte received: it is typed \<open>string\<close>, HOL's 8-bit characters. A Python \<open>str\<close> in
  general (a decoded body, the text of an exception) is a list of code points, \<open>ustr\<close>.
  \<open>bytes\<close> objects are lists of 8-bit words.
\<close>

type_synonym byte = "8 word"
type_synonym bytes = "byte list"
type_synonym ustr = "nat list"

definition latin1 :: "string \<Rightarrow> ustr" where
  "latin1 s = map of_char s"

subsection \<open>UTF-8\<close>

text \<open>
  \<open>str.encode()\<close>: UTF-8, strict. A surrogate code point cannot be encoded and Python
  raises \<open>UnicodeEncodeError\<close>; that is \<open>None\<close> here.
\<close>

definition utf8_encode_cp :: "nat \<Rightarrow> bytes option" where
  "utf8_encode_cp c =
     (if c < 0x80 then Some [of_nat c]
      else if c < 0x800 then Some [of_nat (0xC0 + c div 64), of_nat (0x80 + c mod 64)]
      else if c < 0x10000 then
        (if 0xD800 \<le> c \<and> c < 0xE000 then None
         else Some [of_nat (0xE0 + c div 4096), of_nat (0x80 + c div 64 mod 64),
                    of_nat (0x80 + c mod 64)])
      else if c < 0x110000 then
        Some [of_nat (0xF0 + c div 262144), of_nat (0x80 + c div 4096 mod 64),
              of_nat (0x80 + c div 64 mod 64), of_nat (0x80 + c mod 64)]
      else None)"

fun utf8_encode :: "ustr \<Rightarrow> bytes option" where
  "utf8_encode [] = Some []"
| "utf8_encode (c # cs) =
     (case utf8_encode_cp c of
        None \<Rightarrow> None
      | Some bs \<Rightarrow> (case utf8_encode cs of None \<Rightarrow> None | Some rest \<Rightarrow> Some (bs @ rest)))"

text \<open>
  The decoder reads one item at the head of a non-empty input: a scalar value with the
  number of bytes it took, or a malformed sequence with the number of bytes the error
  covers (CPython's error range: the bytes that were well-formed so far, at least one).
  The payload bits of a byte are its value modulo 32, 16, 8 (lead bytes) or 64.
  \<open>bytes.decode('utf-8')\<close> raises at the first malformed sequence;
  \<open>errors='replace'\<close> puts U+FFFD for it and goes on after the error range.
\<close>

datatype utf8_item = Scalar nat nat | Malformed nat

definition is_cont :: "byte \<Rightarrow> bool" where
  "is_cont b = (0x80 \<le> unat b \<and> unat b < 0xC0)"

fun utf8_next :: "bytes \<Rightarrow> utf8_item" where
  "utf8_next [] = Malformed 1"
| "utf8_next (b0 # rest) =
     (let c0 = unat b0 in
      if c0 < 0x80 then Scalar c0 1
      else if c0 < 0xC2 then Malformed 1
      else if c0 < 0xE0 then
        (case rest of
           [] \<Rightarrow> Malformed 1
         | b1 # _ \<Rightarrow>
             if \<not> is_cont b1 then Malformed 1
             else Scalar (c0 mod 32 * 64 + unat b1 mod 64) 2)
      else if c0 < 0xF0 then
        (case rest of
           [] \<Rightarrow> Malformed 1
         | b1 # rest1 \<Rightarrow>
             if \<not> is_cont b1 \<or> (c0 = 0xE0 \<and> unat b1 < 0xA0) \<or> (c0 = 0xED \<and> 0xA0 \<le> unat b1)
             then Malformed 1
             else (case rest1 of
                     [] \<Rightarrow> Malformed 2
                   | b2 # _ \<Rightarrow>
                       if \<not> is_cont b2 then Malformed 2
                       else Scalar (c0 mod 16 * 4096 + unat b1 mod 64 * 64 + unat b2 mod 64) 3))
      else if c0 < 0xF5 then
        (case rest of
           [] \<Rightarrow> Malformed 1
         | b1 # rest1 \<Rightarrow>
             if \<not> is_cont b1 \<or> (c0 = 0xF0 \<and> unat b1 < 0x90) \<or> (c0 = 0xF4 \<and> 0x90 \<le> unat b1)
             then Malformed 1
             else (case rest1 of
                     [] \<Rightarrow> Malformed 2
                   | b2 # rest2 \<Rightarrow>
                       if \<not> is_cont b2 then Malformed 2
                       else (case rest2 of
                               [] \<Rightarrow> Malformed 3
                             | b3 # _ \<Rightarrow>
                                 if \<not> is_cont b3 then Malformed 3
                                 else Scalar (c0 mod 8 * 262144 + unat b1 mod 64 * 4096
                                               + unat b2 mod 64 * 64 + unat b3 mod 64) 4)))
      else Malformed 1)"

definition item_len :: "utf8_item \<Rightarrow> nat" where
  "item_len it = (case it of Scalar _ n \<Rightarrow> n | Malformed n \<Rightarrow> n)"

function utf8_decode :: "bytes \<Rightarrow> ustr option" where
  "utf8_decode bs =
     (if bs = [] then Some []
      else (case utf8_next bs of
              Malformed _ \<Rightarrow> None
            | Scalar c n \<Rightarrow>
                (case utf8_decode (drop n bs) of None \<Rightarrow> None | Some cs \<Rightarrow> Some (c # cs))))"
  by pat_completeness auto
termination
proof (relation "measure length")
  show "wf (measure length)" by simp
next
  fix bs :: bytes and c n
  assume "bs \<noteq> []" and "utf8_next bs = Scalar c n"
  moreover have "0 < item_len (utf8_next bs)"
    by (cases bs) (auto simp: item_len_def Let_def split: list.splits)
  ultimately show "(drop n bs, bs) \<in> measure length"
    by (simp add: item_len_def)
qed

function utf8_decode_replace :: "bytes \<Rightarrow> ustr" where
  "utf8_decode_replace bs =
     (if bs = [] then []
      else (case utf8_next bs of
              Malformed n \<Rightarrow> 0xFFFD # utf8_decode_replace (drop n bs)
            | Scalar c n \<Rightarrow> c # utf8_decode_replace (drop n bs)))"
  by pat_completeness auto
termination
proof (relation "measure length")
  show "wf (measure length)" by simp
next
  fix bs :: bytes and n
  assume "bs \<noteq> []" and "utf8_next bs = Malformed n"
  moreover have "0 < item_len (utf8_next bs)"
    by (cases bs) (auto simp: item_len_def Let_def split: list.splits)
  ultimately show "(drop n bs, bs) \<in> measure length"
    by (simp add: item_len_def)
next
  fix bs :: bytes and c n
  assume "bs \<noteq> []" and "utf8_next bs = Scalar c n"
  moreover have "0 < item_len (utf8_next bs)"
    by (cases bs) (auto simp: item_len_def Let_def split: list.splits)
  ultimately show "(drop n bs, bs) \<in> measure length"
    by (simp add: item_len_def)
qed

subsection \<open>SHA-256, HMAC and Base64\<close>

text \<open>
  \<open>hashlib.sha256\<close>, \<open>hmac.new(key, msg, hashlib.sha256).digest()\<close> and
  \<open>base64.b64encode\<close> belong to the interpreter's library. They are written out here
  from FIPS 180-4, RFC 2104 and RFC 4648, so that a signature is a value that can be
  computed. Round constants are in decimal.
\<close>

type_synonym u32 = "32 word"

definition rotr :: "nat \<Rightarrow> u32 \<Rightarrow> u32" where
  "rotr n x = drop_bit n x OR push_bit (32 - n) x"

definition ch :: "u32 \<Rightarrow> u32 \<Rightarrow> u32 \<Rightarrow> u32" where
  "ch x y z = (x AND y) XOR (NOT x AND z)"

definition maj :: "u32 \<Rightarrow> u32 \<Rightarrow> u32 \<Rightarrow> u32" where
  "maj x y z = (x AND y) XOR (x AND z) XOR (y AND z)"

definition big_sigma0 :: "u32 \<Rightarrow> u32" where
  "big_sigma0 x = rotr 2 x XOR rotr 13 x XOR rotr 22 x"

definition big_sigma1 :: "u32 \<Rightarrow> u32" where
  "big_sigma1 x = rotr 6 x XOR rotr 11 x XOR rotr 25 x"

definition small_sigma0 :: "u32 \<Rightarrow> u32" where
  "small_sigma0 x = rotr 7 x XOR rotr 18 x XOR drop_bit 3 x"

definition small_sigma1 :: "u32 \<Rightarrow> u32" where
  "small_sigma1 x = rotr 17 x XOR rotr 19 x XOR drop_bit 10 x"

definition sha256_k :: "u32 list" where
  "sha256_k =
     [1116352408, 1899447441, 3049323471, 3921009573, 961987163, 1508970993,
      2453635748, 2870763221, 3624381080, 310598401, 607225278, 1426881987,
      1925078388, 2162078206, 2614888103, 3248222580, 3835390401, 4022224774,
      264347078, 604807628, 770255983, 1249150122, 1555081692, 1996064986,
      2554220882, 2821834349, 2952996808, 3210313671, 3336571891, 3584528711,
      113926993, 338241895, 666307205, 773529912, 1294757372, 1396182291,
      1695183700, 1986661051, 2177026350, 2456956037, 2730485921, 2820302411,
      3259730800, 3345764771, 3516065817, 3600352804, 4094571909, 275423344,
      430227734, 506948616, 659060556, 883997877, 958139571, 1322822218,
      1537002063, 1747873779, 1955562222, 2024104815, 2227730452, 2361852424,
      2428436474, 2756734187, 3204031479, 3329325298]"

definition sha256_init :: "u32 list" where
  "sha256_init =
     [1779033703, 3144134277, 1013904242, 2773480762,
      1359893119, 2600822924, 528734635, 1541459225]"

definition be_word :: "bytes \<Rightarrow> u32" where
  "be_word bs = foldl (\<lambda>acc b. push_bit 8 acc OR ucast b) 0 bs"

definition be_bytes :: "u32 \<Rightarrow> bytes" where
  "be_bytes w = [ucast (drop_bit 24 w), ucast (drop_bit 16 w), ucast (drop_bit 8 w), ucast w]"

definition be_length :: "nat \<Rightarrow> bytes" where
  "be_length n =
     (let w = (of_nat n :: 64 word)
      in map (\<lambda>i. ucast (drop_bit (8 * (7 - i)) w)) [0..<8])"

fun chunks :: "nat \<Rightarrow> nat \<Rightarrow> 'a list \<Rightarrow> 'a list list" where
  "chunks 0 k xs = []"
| "chunks (Suc n) k xs = take k xs # chunks n k (drop k xs)"

definition sha256_pad :: "bytes \<Rightarrow> bytes" where
  "sha256_pad m =
     m @ [0x80] @ replicate ((119 - length m mod 64) mod 64) 0 @ be_length (8 * length m)"

fun schedule :: "nat \<Rightarrow> u32 list \<Rightarrow> u32 list" where
  "schedule 0 w = w"
| "schedule (Suc n) w =
     schedule n (w @ [small_sigma1 (w ! (length w - 2)) + w ! (length w - 7)
                      + small_sigma0 (w ! (length w - 15)) + w ! (length w - 16)])"

fun sha256_round :: "u32 list \<Rightarrow> u32 \<times> u32 \<Rightarrow> u32 list" where
  "sha256_round [a, b, c, d, e, f, g, h] (k, w) =
     (let t1 = h + big_sigma1 e + ch e f g + k + w;
          t2 = big_sigma0 a + maj a b c
      in [t1 + t2, a, b, c, d + t1, e, f, g])"
| "sha256_round st _ = st"

definition sha256_block :: "u32 list \<Rightarrow> bytes \<Rightarrow> u32 list" where
  "sha256_block hs blk =
     (let w = schedule 48 (map be_word (chunks 16 4 blk))
      in map2 (+) hs (foldl sha256_round hs (zip sha256_k w)))"

definition sha256 :: "bytes \<Rightarrow> bytes" where
  "sha256 m =
     (let p = sha256_pad m
      in concat (map be_bytes (foldl sha256_block sha256_init (chunks (length p div 64) 64 p))))"

definition hmac_sha256 :: "bytes \<Rightarrow> bytes \<Rightarrow> bytes" where
  "hmac_sha256 key msg =
     (let k0 = (if 64 < length key then sha256 key else key);
          k = k0 @ replicate (64 - length k0) 0
      in sha256 (map (\<lambda>b. b XOR 0x5C) k @ sha256 (map (\<lambda>b. b XOR 0x36) k @ msg)))"

definition b64_alphabet :: string where
  "b64_alphabet = ''ABCDEFGHIJKLMNOPQRSTUVWXYZabcdefghijklmnopqrstuvwxyz0123456789+/''"

definition b64_char :: "u32 \<Rightarrow> byte" where
  "b64_char i = of_char (b64_alphabet ! unat (i AND 63))"

definition b64_group :: "byte \<Rightarrow> byte \<Rightarrow> byte \<Rightarrow> u32" where
  "b64_group a b c = push_bit 16 (ucast a) OR push_bit 8 (ucast b) OR ucast c"

fun b64encode :: "bytes \<Rightarrow> bytes" where
  "b64encode [] = []"
| "b64encode [a] =
     (let n = b64_group a 0 0
      in [b64_char (drop_bit 18 n), b64_char (drop_bit 12 n), 0x3D, 0x3D])"
| "b64encode [a, b] =
     (let n = b64_group a b 0
      in [b64_char (drop_bit 18 n), b64_char (drop_bit 12 n), b64_char (drop_bit 6 n), 0x3D])"
| "b64encode (a # b # c # rest) =
     (let n = b64_group a b c
      in b64_char (drop_bit 18 n) # b64_char (drop_bit 12 n) # b64_char (drop_bit 6 n)
         # b64_char n # b64encode rest)"

section \<open>The signer\<close>

text \<open>
  Exceptions are values. \<open>HTTPError\<close> carries the upstream status and the bytes
  \<open>e.read()\<close> returns, \<open>URLError\<close> the text of \<open>str(e.reason)\<close>; the others carry the
  datum they were raised on. \<open>TimeoutError\<close> is \<open>socket.timeout\<close>, an \<open>OSError\<close> that is
  not a \<open>URLError\<close>.
\<close>

datatype exn =
    HTTPError nat bytes
  | URLError ustr
  | TimeoutError
  | ValueError string
  | UnicodeDecodeError bytes
  | UnicodeEncodeError ustr
  | OtherException string

text \<open>
  \<open>str.upper()\<close> on ASCII text. Python maps further letters outside ASCII; the handler
  only ever passes the literals \<open>GET\<close> and \<open>POST\<close>.
\<close>

definition str_upper :: "ustr \<Rightarrow> ustr" where
  "str_upper s = map (\<lambda>c. if 0x61 \<le> c \<and> c \<le> 0x7A then c - 0x20 else c) s"

text \<open>
  \<open>generate_signature\<close> (proxy-server.py, lines 34 to 40). The two \<open>encode()\<close> calls
  and the final \<open>decode()\<close> can raise in Python; the key is encoded before the message.
\<close>

definition generate_signature :: "ustr \<Rightarrow> ustr \<Rightarrow> ustr \<Rightarrow> ustr \<Rightarrow> ustr \<Rightarrow> exn + ustr" where
  "generate_signature secret timestamp meth path body =
     (let message = timestamp @ str_upper meth @ path @ body
      in case utf8_encode secret of
           None \<Rightarrow> Inl (UnicodeEncodeError secret)
         | Some key \<Rightarrow>
             (case utf8_encode message of
                None \<Rightarrow> Inl (UnicodeEncodeError message)
              | Some msg \<Rightarrow>
                  (let raw = b64encode (hmac_sha256 key msg)
                   in case utf8_decode raw of
                        None \<Rightarrow> Inl (UnicodeDecodeError raw)
                      | Some signature \<Rightarrow> Inr signature)))"

section \<open>Python's helpers\<close>

text \<open>\<open>s.split(sep)\<close> for a one-character separator: never an empty list.\<close>

fun split_on :: "'a \<Rightarrow> 'a list \<Rightarrow> 'a list list" where
  "split_on sep [] = [[]]"
| "split_on sep (c # cs) =
     (if c = sep then [] # split_on sep cs
      else (case split_on sep cs of [] \<Rightarrow> [[c]] | p # ps \<Rightarrow> (c # p) # ps))"

text \<open>\<open>sep.join(xs)\<close>.\<close>

fun str_join :: "'a list \<Rightarrow> 'a list list \<Rightarrow> 'a list" where
  "str_join sep [] = []"
| "str_join sep [x] = x"
| "str_join sep (x # y # ys) = x @ sep @ str_join sep (y # ys)"

text \<open>
  \<open>int(s)\<close> on header text: white space around, a sign, decimal digits with single
  underscores between them. Anything else raises \<open>ValueError\<close> (\<open>None\<close>). The
  interpreter's limit on the number of digits is not modelled.
\<close>

definition is_space :: "char \<Rightarrow> bool" where
  "is_space c =
     (let n = (of_char c :: nat)
      in (9 \<le> n \<and> n \<le> 13) \<or> n = 32 \<or> n = 0x85 \<or> n = 0xA0)"

definition is_digit :: "char \<Rightarrow> bool" where
  "is_digit c = (let n = (of_char c :: nat) in 48 \<le> n \<and> n \<le> 57)"

definition digit_val :: "char \<Rightarrow> nat" where
  "digit_val c = of_char c - 48"

definition str_strip :: "string \<Rightarrow> string" where
  "str_strip s = rev (dropWhile is_space (rev (dropWhile is_space s)))"

fun dec_digits :: "nat \<Rightarrow> string \<Rightarrow> nat option" where
  "dec_digits acc [] = Some acc"
| "dec_digits acc [c] = (if is_digit c then Some (10 * acc + digit_val c) else None)"
| "dec_digits acc (c # d # ds) =
     (if is_digit c then dec_digits (10 * acc + digit_val c) (d # ds)
      else if c = CHR ''_'' \<and> is_digit d then dec_digits (10 * acc + digit_val d) ds
      else None)"

definition py_int :: "string \<Rightarrow> int option" where
  "py_int s =
     (let t = str_strip s;
          neg = (case t of [] \<Rightarrow> False | c # _ \<Rightarrow> c = CHR ''-'');
          u = (case t of [] \<Rightarrow> [] | c # r \<Rightarrow> if c = CHR ''-'' \<or> c = CHR ''+'' then r else t)
      in case u of
           [] \<Rightarrow> None
         | c # _ \<Rightarrow>
             if is_digit c
             then map_option (\<lambda>n. if neg then - int n else int n) (dec_digits 0 u)
             else None)"

text \<open>\<open>str(n)\<close> for an integer: decimal, a minus sign when negative.\<close>

definition digit_char :: "nat \<Rightarrow> char" where
  "digit_char n = char_of (48 + n)"

function nat_digits :: "nat \<Rightarrow> string" where
  "nat_digits n = (if n < 10 then [digit_char n] else nat_digits (n div 10) @ [digit_char (n mod 10)])"
  by pat_completeness auto
termination
  by (relation "measure id") auto

definition str_of_int :: "int \<Rightarrow> string" where
  "str_of_int i = (if i < 0 then CHR ''-'' # nat_digits (nat (- i)) else nat_digits (nat i))"

subsection \<open>Header blocks\<close>

text \<open>
  A header block keeps its lines in order. Names compare without case (they are ASCII
  tokens); \<open>headers.get(name)\<close> is the first line of that name.
\<close>

type_synonym headers = "(string \<times> string) list"

definition ascii_lower :: "string \<Rightarrow> string" where
  "ascii_lower s =
     map (\<lambda>c. let n = (of_char c :: nat) in if 65 \<le> n \<and> n \<le> 90 then char_of (n + 32) else c) s"

definition headers_get :: "headers \<Rightarrow> string \<Rightarrow> string option" where
  "headers_get hs name = map_of (map (\<lambda>(k, v). (ascii_lower k, v)) hs) (ascii_lower name)"

definition headers_get_or :: "headers \<Rightarrow> string \<Rightarrow> string \<Rightarrow> string" where
  "headers_get_or hs name dflt = (case headers_get hs name of None \<Rightarrow> dflt | Some v \<Rightarrow> v)"

text \<open>\<open>HTTPResponse.getheader(name)\<close>: every line of that name, joined with a comma.\<close>

definition getheader :: "headers \<Rightarrow> string \<Rightarrow> string option" where
  "getheader hs name =
     (case map snd (filter (\<lambda>(k, v). ascii_lower k = ascii_lower name) hs) of
        [] \<Rightarrow> None
      | vs \<Rightarrow> Some (str_join '', '' vs))"

subsection \<open>\<open>json.dumps\<close> of a flat object\<close>

text \<open>
  The error envelope is a dictionary of strings and \<open>None\<close>. \<open>json.dumps\<close> writes it
  with the separators \<open>", "\<close> and \<open>": "\<close> and escapes every character outside
  printable ASCII, so its result is ASCII text.
\<close>

datatype json_atom = JNull | JString ustr

definition hex_digit :: "nat \<Rightarrow> char" where
  "hex_digit n = ''0123456789abcdef'' ! (n mod 16)"

definition hex4 :: "nat \<Rightarrow> string" where
  "hex4 n = [hex_digit (n div 4096), hex_digit (n div 256), hex_digit (n div 16), hex_digit n]"

definition json_escape :: "nat \<Rightarrow> string" where
  "json_escape c =
     (if c = 0x22 then [CHR 0x5C, CHR 0x22]
      else if c = 0x5C then [CHR 0x5C, CHR 0x5C]
      else if c = 0x0A then [CHR 0x5C, CHR ''n'']
      else if c = 0x0D then [CHR 0x5C, CHR ''r'']
      else if c = 0x09 then [CHR 0x5C, CHR ''t'']
      else if c = 0x08 then [CHR 0x5C, CHR ''b'']
      else if c = 0x0C then [CHR 0x5C, CHR ''f'']
      else if 0x20 \<le> c \<and> c \<le> 0x7E then [char_of c]
      else if c < 0x10000 then [CHR 0x5C, CHR ''u''] @ hex4 c
      else [CHR 0x5C, CHR ''u''] @ hex4 (0xD800 + (c - 0x10000) div 1024 mod 1024)
           @ [CHR 0x5C, CHR ''u''] @ hex4 (0xDC00 + (c - 0x10000) mod 1024))"

definition json_string :: "ustr \<Rightarrow> string" where
  "json_string s = [CHR 0x22] @ concat (map json_escape s) @ [CHR 0x22]"

definition json_atom_dumps :: "json_atom \<Rightarrow> string" where
  "json_atom_dumps a = (case a of JNull \<Rightarrow> ''null'' | JString s \<Rightarrow> json_string s)"

definition json_dumps :: "(ustr \<times> json_atom) list \<Rightarrow> string" where
  "json_dumps kvs =
     ''{'' @ str_join '', '' (map (\<lambda>(k, v). json_string k @ '': '' @ json_atom_dumps v) kvs) @ ''}''"

section \<open>The proxy handler\<close>

text \<open>
  What the handler is given: the request target as received (\<open>self.path\<close>, query string
  included), the header block, and the bytes the client sent after it (\<open>self.rfile\<close>).
\<close>

record request =
  path :: string
  req_headers :: headers
  rfile :: bytes

text \<open>
  One call to the upstream host: the arguments of \<open>urllib.request.Request\<close> and the
  timeout, in seconds, given to \<open>urlopen\<close>.
\<close>

record outbound =
  url :: string
  data :: "bytes option"
  out_headers :: "(string \<times> ustr) list"
  out_method :: string
  timeout_s :: nat

record upstream_response =
  up_status :: nat
  up_headers :: headers
  up_body :: bytes

text \<open>
  What the caller receives. The status line's reason phrase and the \<open>Server\<close> and
  \<open>Date\<close> headers that \<open>send_response\<close> adds are left out.
\<close>

record response =
  status :: nat
  sent_headers :: headers
  body :: bytes

text \<open>
  The world outside the handler: the clock (\<open>int(time.time() * 1000)\<close>), the upstream
  call (\<open>urlopen\<close> and the \<open>read\<close> of its response: a response or an exception), the
  text \<open>str(e)\<close> of an exception, and what the base class
  \<open>SimpleHTTPRequestHandler\<close> sends before and after it calls \<open>self.end_headers()\<close>:
  for a static file, for \<open>send_error\<close>, and for a command this class does not define.
  Writes to the client and to standard output are taken to succeed.

  \<open>urlopen\<close> raises \<open>HTTPError\<close> for a response outside 2xx that it does not follow, and
  \<open>URLError\<close> for an \<open>OSError\<close> met while it connects and sends the request (name
  resolution, a refused connection, the TLS handshake, a timeout while connecting). It
  waits for the response outside that guard (\<open>AbstractHTTPHandler.do_open\<close> calls
  \<open>getresponse\<close> after it), so a timeout there reaches the caller as \<open>TimeoutError\<close>.
\<close>

record env =
  clock_ms :: int
  urlopen :: "outbound \<Rightarrow> exn + upstream_response"
  exn_str :: "exn \<Rightarrow> ustr"
  static_file :: "request \<Rightarrow> nat \<times> headers \<times> bytes"
  error_page :: "nat \<Rightarrow> string \<Rightarrow> headers \<times> bytes"
  other_command :: "string \<Rightarrow> request \<Rightarrow> nat \<times> headers \<times> bytes"

text \<open>
  One handled request: the response sent (\<open>None\<close> when the handler dies of an exception
  it does not catch) and the upstream calls made, in order.
\<close>

record outcome =
  reply :: "response option"
  calls :: "outbound list"

definition WEEX_API_BASE :: string where
  "WEEX_API_BASE = ''https://api-contract.weex.com''"

subsection \<open>Writing a response\<close>

definition send_response :: "nat \<Rightarrow> response" where
  "send_response code = \<lparr>status = code, sent_headers = [], body = []\<rparr>"

definition send_header :: "string \<Rightarrow> string \<Rightarrow> response \<Rightarrow> response" where
  "send_header keyword v r = r\<lparr>sent_headers := sent_headers r @ [(keyword, v)]\<rparr>"

definition wfile_write :: "bytes \<Rightarrow> response \<Rightarrow> response" where
  "wfile_write bs r = r\<lparr>body := body r @ bs\<rparr>"

text \<open>\<open>CORSProxyHandler.end_headers\<close> (lines 46 to 53).\<close>

definition end_headers :: "response \<Rightarrow> response" where
  "end_headers r =
     (let r1 = send_header ''Access-Control-Allow-Origin'' ''*'' r;
          r2 = send_header ''Access-Control-Allow-Methods'' ''GET, POST, PUT, DELETE, OPTIONS'' r1;
          r3 = send_header ''Access-Control-Allow-Headers'' ''*'' r2;
          r4 = send_header ''Access-Control-Expose-Headers'' ''*'' r3;
          r5 = send_header ''Cache-Control'' ''no-cache, no-store, must-revalidate'' r4
      in r5)"

text \<open>The base class sends a status and its own headers, ends the headers, writes a body.\<close>

definition base_reply :: "nat \<Rightarrow> headers \<Rightarrow> bytes \<Rightarrow> response" where
  "base_reply code hs b =
     wfile_write b (end_headers (fold (\<lambda>(k, v). send_header k v) hs (send_response code)))"

definition send_error :: "env \<Rightarrow> nat \<Rightarrow> string \<Rightarrow> response" where
  "send_error env code message = (case error_page env code message of (hs, b) \<Rightarrow> base_reply code hs b)"

text \<open>\<open>do_OPTIONS\<close> (lines 55 to 58).\<close>

definition do_OPTIONS :: outcome where
  "do_OPTIONS = \<lparr>reply = Some (end_headers (send_response 200)), calls = []\<rparr>"

subsection \<open>\<open>_proxy_request\<close>: the body of the \<open>try\<close>\<close>

text \<open>Line 86: \<open>int(self.headers.get('Content-Length', 0))\<close>.\<close>

definition content_length :: "request \<Rightarrow> exn + int" where
  "content_length req =
     (case headers_get (req_headers req) ''Content-Length'' of
        None \<Rightarrow> Inr 0
      | Some v \<Rightarrow> (case py_int v of None \<Rightarrow> Inl (ValueError v) | Some n \<Rightarrow> Inr n))"

text \<open>
  Line 87: the body is read only when the declared length is positive, at most that many
  bytes, and decoded as UTF-8 at once.
\<close>

definition read_body :: "request \<Rightarrow> exn + ustr" where
  "read_body req =
     (case content_length req of
        Inl e \<Rightarrow> Inl e
      | Inr n \<Rightarrow>
          if 0 < n then
            (let raw = take (nat n) (rfile req)
             in case utf8_decode raw of None \<Rightarrow> Inl (UnicodeDecodeError raw) | Some s \<Rightarrow> Inr s)
          else Inr [])"

text \<open>Lines 78 to 80 and 106 to 112: the path and the body that are signed.\<close>

definition base_path :: "request \<Rightarrow> string" where
  "base_path req = hd (split_on CHR ''?'' (path req))"

definition query_string :: "request \<Rightarrow> string" where
  "query_string req =
     (let path_parts = split_on CHR ''?'' (path req)
      in if 1 < length path_parts then path_parts ! 1 else [])"

definition sign_path :: "string \<Rightarrow> request \<Rightarrow> string" where
  "sign_path meth req =
     (if str_upper (latin1 meth) = latin1 ''GET'' \<and> query_string req \<noteq> []
      then base_path req @ ''?'' @ query_string req
      else base_path req)"

definition sign_body :: "string \<Rightarrow> ustr \<Rightarrow> ustr" where
  "sign_body meth body_text = (if str_upper (latin1 meth) = latin1 ''POST'' then body_text else [])"

text \<open>
  Lines 90 to 125: the headers of the upstream call. The dictionary keeps the order in
  which its keys were set.
\<close>

definition authenticated :: "request \<Rightarrow> bool" where
  "authenticated req =
     (headers_get_or (req_headers req) ''ACCESS-KEY'' [] \<noteq> []
      \<and> headers_get_or (req_headers req) ''ACCESS-SIGN'' [] \<noteq> []
      \<and> headers_get_or (req_headers req) ''ACCESS-PASSPHRASE'' [] \<noteq> [])"

definition forward_headers :: "env \<Rightarrow> string \<Rightarrow> request \<Rightarrow> ustr \<Rightarrow> exn + (string \<times> ustr) list" where
  "forward_headers env meth req body_text =
     (let api_key = headers_get_or (req_headers req) ''ACCESS-KEY'' [];
          api_secret = headers_get_or (req_headers req) ''ACCESS-SIGN'' [];
          passphrase = headers_get_or (req_headers req) ''ACCESS-PASSPHRASE'' [];
          hs = [(''Content-Type'', latin1 ''application/json''),
                (''locale'', latin1 (headers_get_or (req_headers req) ''locale'' ''en-US''))]
      in if authenticated req then
           (let timestamp = str_of_int (clock_ms env)
            in case generate_signature (latin1 api_secret) (latin1 timestamp) (latin1 meth)
                      (latin1 (sign_path meth req)) (sign_body meth body_text) of
                 Inl e \<Rightarrow> Inl e
               | Inr signature \<Rightarrow>
                   Inr (hs @ [(''ACCESS-KEY'', latin1 api_key),
                              (''ACCESS-SIGN'', signature),
                              (''ACCESS-PASSPHRASE'', latin1 passphrase),
                              (''ACCESS-TIMESTAMP'', latin1 timestamp)]))
         else Inr hs)"

text \<open>Lines 128 to 133: \<open>data\<close> is \<open>None\<close> for an empty body.\<close>

definition request_data :: "ustr \<Rightarrow> exn + bytes option" where
  "request_data body_text =
     (if body_text \<noteq> [] then
        (case utf8_encode body_text of
           None \<Rightarrow> Inl (UnicodeEncodeError body_text)
         | Some bs \<Rightarrow> Inr (Some bs))
      else Inr None)"

text \<open>Lines 135 to 148: the upstream response is copied to the caller.\<close>

definition relay :: "upstream_response \<Rightarrow> response" where
  "relay resp =
     (let r0 = send_response (up_status resp);
          r1 = send_header ''Content-Type''
                 (case getheader (up_headers resp) ''Content-Type'' of
                    None \<Rightarrow> ''application/json'' | Some v \<Rightarrow> v) r0;
          r2 = fold (\<lambda>header r.
                       case getheader (up_headers resp) header of
                         None \<Rightarrow> r
                       | Some v \<Rightarrow> if v \<noteq> [] then send_header header v r else r)
                 [''X-RateLimit-Limit'', ''X-RateLimit-Remaining'', ''X-RateLimit-Reset''] r1
      in wfile_write (up_body resp) (end_headers r2))"

text \<open>
  The \<open>try\<close> block: its result is the response written or the exception raised, with the
  upstream calls made until then.
\<close>

definition proxy_try :: "env \<Rightarrow> string \<Rightarrow> request \<Rightarrow> (exn + response) \<times> outbound list" where
  "proxy_try env meth req =
     (case read_body req of
        Inl e \<Rightarrow> (Inl e, [])
      | Inr body_text \<Rightarrow>
          (case forward_headers env meth req body_text of
             Inl e \<Rightarrow> (Inl e, [])
           | Inr hs \<Rightarrow>
               (case request_data body_text of
                  Inl e \<Rightarrow> (Inl e, [])
                | Inr d \<Rightarrow>
                    (let out = \<lparr>url = WEEX_API_BASE @ path req, data = d,
                                 out_headers = hs, out_method = meth, timeout_s = 30\<rparr>
                     in case urlopen env out of
                          Inl e \<Rightarrow> (Inl e, [out])
                        | Inr resp \<Rightarrow> (Inr (relay resp), [out])))))"

subsection \<open>\<open>_proxy_request\<close>: the \<open>except\<close> clauses\<close>

definition error_envelope :: "string \<Rightarrow> ustr \<Rightarrow> (ustr \<times> json_atom) list" where
  "error_envelope code msg =
     [(latin1 ''code'', JString (latin1 code)),
      (latin1 ''msg'', JString msg),
      (latin1 ''requestTime'', JNull),
      (latin1 ''data'', JNull)]"

definition json_reply :: "nat \<Rightarrow> response" where
  "json_reply code = end_headers (send_header ''Content-Type'' ''application/json'' (send_response code))"

text \<open>
  Lines 153 to 185. The clauses are tried in order: \<open>HTTPError\<close>, then \<open>URLError\<close>, then
  any other exception. An \<open>encode()\<close> that raises inside a clause is not caught.
\<close>

definition proxy_request :: "env \<Rightarrow> string \<Rightarrow> request \<Rightarrow> outcome" where
  "proxy_request env meth req =
     (case proxy_try env meth req of
        (Inr r, cs) \<Rightarrow> \<lparr>reply = Some r, calls = cs\<rparr>
      | (Inl (HTTPError code raw), cs) \<Rightarrow>
          (let error_body = utf8_decode_replace raw
           in \<lparr>reply = map_option (\<lambda>bs. wfile_write bs (json_reply code)) (utf8_encode error_body),
               calls = cs\<rparr>)
      | (Inl (URLError reason), cs) \<Rightarrow>
          (let error_response =
                 json_dumps (error_envelope ''502'' (latin1 ''Failed to connect to WEEX API: '' @ reason))
           in \<lparr>reply = map_option (\<lambda>bs. wfile_write bs (json_reply 502))
                          (utf8_encode (latin1 error_response)),
               calls = cs\<rparr>)
      | (Inl e, cs) \<Rightarrow>
          (let error_response =
                 json_dumps (error_envelope ''500'' (latin1 ''Proxy error: '' @ exn_str env e))
           in \<lparr>reply = map_option (\<lambda>bs. wfile_write bs (json_reply 500))
                          (utf8_encode (latin1 error_response)),
               calls = cs\<rparr>))"

subsection \<open>Dispatch\<close>

text \<open>\<open>do_GET\<close> and \<open>do_POST\<close> (lines 60 to 72).\<close>

definition do_GET :: "env \<Rightarrow> request \<Rightarrow> outcome" where
  "do_GET env req =
     (if prefix ''/capi/'' (path req) then proxy_request env ''GET'' req
      else (case static_file env req of
              (code, hs, b) \<Rightarrow> \<lparr>reply = Some (base_reply code hs b), calls = []\<rparr>))"

definition do_POST :: "env \<Rightarrow> request \<Rightarrow> outcome" where
  "do_POST env req =
     (if prefix ''/capi/'' (path req) then proxy_request env ''POST'' req
      else \<lparr>reply = Some (send_error env 404 ''Not Found''), calls = []\<rparr>)"

text \<open>
  \<open>BaseHTTPRequestHandler\<close> calls the method \<open>do_\<close> followed by the command; the class
  defines three, the rest is the base class's.
\<close>

definition handle_command :: "env \<Rightarrow> string \<Rightarrow> request \<Rightarrow> outcome" where
  "handle_command env command req =
     (if command = ''OPTIONS'' then do_OPTIONS
      else if command = ''GET'' then do_GET env req
      else if command = ''POST'' then do_POST env req
      else (case other_command env command req of
              (code, hs, b) \<Rightarrow> \<lparr>reply = Some (base_reply code hs b), calls = []\<rparr>))"

section \<open>What the specification says a signature is\<close>

text \<open>
  The specification writes a signature as \<open>base64(HMAC-SHA256(S, message))\<close>. The secret
  and the text of the message are taken as their UTF-8 bytes; the result is the ASCII
  text of the Base64 encoding. \<open>utf8_bytes\<close> is the encoding of a string that can be
  encoded (the lemmas below show that it can, wherever it is used).
\<close>

definition utf8_bytes :: "ustr \<Rightarrow> bytes" where
  "utf8_bytes s = (case utf8_encode s of None \<Rightarrow> [] | Some bs \<Rightarrow> bs)"

definition text_bytes :: "string \<Rightarrow> bytes" where
  "text_bytes s = utf8_bytes (latin1 s)"

definition spec_signature :: "string \<Rightarrow> bytes \<Rightarrow> ustr" where
  "spec_signature secret message = map unat (b64encode (hmac_sha256 (text_bytes secret) message))"

text \<open>A credential header is present when the request has it with a non-empty value.\<close>

definition credential_present :: "request \<Rightarrow> string \<Rightarrow> bool" where
  "credential_present req name =
     (case headers_get (req_headers req) name of None \<Rightarrow> False | Some v \<Rightarrow> v \<noteq> [])"

definition all_credentials :: "request \<Rightarrow> bool" where
  "all_credentials req =
     (credential_present req ''ACCESS-KEY'' \<and> credential_present req ''ACCESS-SIGN''
      \<and> credential_present req ''ACCESS-PASSPHRASE'')"

text \<open>The header set of section 4.6, in the order \<open>end_headers\<close> sends it.\<close>

definition cors_headers :: headers where
  "cors_headers =
     [(''Access-Control-Allow-Origin'', ''*''),
      (''Access-Control-Allow-Methods'', ''GET, POST, PUT, DELETE, OPTIONS''),
      (''Access-Control-Allow-Headers'', ''*''),
      (''Access-Control-Expose-Headers'', ''*''),
      (''Cache-Control'', ''no-cache, no-store, must-revalidate'')]"

section \<open>Concrete requests and environments\<close>

text \<open>
  The scenarios of section 8 of the specification, as inputs on which the theorems
  below are instantiated.
\<close>

definition sample_env :: "(outbound \<Rightarrow> exn + upstream_response) \<Rightarrow> env" where
  "sample_env up =
     \<lparr>clock_ms = 1700000000000,
      urlopen = up,
      exn_str = (\<lambda>e. case e of TimeoutError \<Rightarrow> latin1 ''timed out'' | _ \<Rightarrow> latin1 ''error''),
      static_file = (\<lambda>r. (200, [(''Content-Type'', ''text/html'')], [])),
      error_page = (\<lambda>code message. ([(''Connection'', ''close'')], [])),
      other_command = (\<lambda>command r. (501, [(''Connection'', ''close'')], []))\<rparr>"

definition upstream_ok :: "outbound \<Rightarrow> exn + upstream_response" where
  "upstream_ok out =
     Inr \<lparr>up_status = 200,
          up_headers = [(''Content-Type'', ''application/json''), (''X-RateLimit-Remaining'', ''9'')],
          up_body = map of_char ''{}''\<rparr>"

definition upstream_down :: "outbound \<Rightarrow> exn + upstream_response" where
  "upstream_down out = Inl (URLError (latin1 ''[Errno 111] Connection refused''))"

definition upstream_denies :: "outbound \<Rightarrow> exn + upstream_response" where
  "upstream_denies out = Inl (HTTPError 401 (map of_char ''denied''))"

definition upstream_garbled :: "outbound \<Rightarrow> exn + upstream_response" where
  "upstream_garbled out = Inl (HTTPError 400 [0xFF])"

definition upstream_silent :: "outbound \<Rightarrow> exn + upstream_response" where
  "upstream_silent out = Inl TimeoutError"

definition credentials :: headers where
  "credentials = [(''ACCESS-KEY'', ''K''), (''ACCESS-SIGN'', ''S''), (''ACCESS-PASSPHRASE'', ''P'')]"

definition order_body :: bytes where
  "order_body = map of_char (''{'' @ [CHR 0x22] @ ''symbol'' @ [CHR 0x22] @ '':''
                               @ [CHR 0x22] @ ''cmt_btcusdt'' @ [CHR 0x22] @ ''}'')"

definition post_order :: request where
  "post_order =
     \<lparr>path = ''/capi/v2/order/placeOrder?source=docs'',
      req_headers = credentials @ [(''Content-Length'', ''24'')],
      rfile = order_body\<rparr>"

definition get_ticker :: request where
  "get_ticker =
     \<lparr>path = ''/capi/v2/market/ticker?symbol=cmt_btcusdt'', req_headers = [], rfile = []\<rparr>"

definition get_accounts :: request where
  "get_accounts =
     \<lparr>path = ''/capi/v2/account/getAccounts'',
      req_headers = credentials @ [(''Content-Length'', ''2'')],
      rfile = map of_char ''{}''\<rparr>"

definition get_two_marks :: request where
  "get_two_marks =
     \<lparr>path = ''/capi/v2/order/history?symbol=cmt_btcusdt&note=a?b'',
      req_headers = credentials, rfile = []\<rparr>"

definition get_partial :: request where
  "get_partial =
     \<lparr>path = ''/capi/v2/account/getAccounts'',
      req_headers = [(''ACCESS-KEY'', ''K''), (''ACCESS-SIGN'', ''S''), (''ACCESS-PASSPHRASE'', [])],
      rfile = []\<rparr>"

definition public_ticker_call :: outbound where
  "public_ticker_call =
     \<lparr>url = ''https://api-contract.weex.com/capi/v2/market/ticker?symbol=cmt_btcusdt'',
      data = None,
      out_headers = [(''Content-Type'', latin1 ''application/json''), (''locale'', latin1 ''en-US'')],
      out_method = ''GET'', timeout_s = 30\<rparr>"

definition post_garbled :: request where
  "post_garbled =
     \<lparr>path = ''/capi/v2/order/placeOrder'',
      req_headers = [(''Content-Length'', ''1'')],
      rfile = [0xFF]\<rparr>"

section \<open>Lemmas: UTF-8\<close>

text \<open>
  Encoding undoes decoding: a byte sequence that decodes is the encoding of its text, so
  the bytes of a signed body are the bytes received.
\<close>

lemma sextet: "c < 64 \<Longrightarrow> (x * 64 + c) div 64 = x \<and> (x * 64 + c) mod 64 = (c::nat)"
  by simp

lemma enc1: "a < 128 \<Longrightarrow> utf8_encode_cp a = Some [of_nat a]"
  by (simp add: utf8_encode_cp_def)

lemma enc2:
  assumes "2 \<le> a" "a < 32" "b < 64"
  shows "utf8_encode_cp (a * 64 + b) = Some [of_nat (0xC0 + a), of_nat (0x80 + b)]"
proof -
  have "128 \<le> a * 64 + b" "a * 64 + b < 2048" using assms by auto
  moreover have "(a * 64 + b) div 64 = a" "(a * 64 + b) mod 64 = b" using assms by auto
  ultimately show ?thesis by (simp add: utf8_encode_cp_def)
qed

lemma enc3:
  assumes "a < 16" "b < 64" "c < 64" "a = 0 \<Longrightarrow> 32 \<le> b" "a = 13 \<Longrightarrow> b < 32"
  shows "utf8_encode_cp (a * 4096 + b * 64 + c)
         = Some [of_nat (0xE0 + a), of_nat (0x80 + b), of_nat (0x80 + c)]"
proof -
  define n where "n = a * 4096 + b * 64 + c"
  have e: "n = (a * 64 + b) * 64 + c" by (simp add: n_def)
  have r: "2048 \<le> n" "n < 65536" using assms unfolding n_def by (cases "a = 0"; auto)+
  have s: "\<not> (55296 \<le> n \<and> n < 57344)" using assms unfolding n_def by (cases "a = 13"; auto)
  have d1: "n div 64 = a * 64 + b" and d0: "n mod 64 = c"
    unfolding e using sextet [OF assms(3)] by blast+
  have d2: "n div 4096 = a" "n div 64 mod 64 = b"
    using sextet [OF assms(2), of a] d1 div_mult2_eq [of n 64 64] by auto
  show ?thesis using r s d0 d2 unfolding n_def [symmetric] by (simp add: utf8_encode_cp_def)
qed

lemma enc4:
  assumes "a < 5" "b < 64" "c < 64" "d < 64" "a = 0 \<Longrightarrow> 16 \<le> b" "a = 4 \<Longrightarrow> b < 16"
  shows "utf8_encode_cp (a * 262144 + b * 4096 + c * 64 + d)
         = Some [of_nat (0xF0 + a), of_nat (0x80 + b), of_nat (0x80 + c), of_nat (0x80 + d)]"
proof -
  define n where "n = a * 262144 + b * 4096 + c * 64 + d"
  have e: "n = ((a * 64 + b) * 64 + c) * 64 + d" by (simp add: n_def)
  have r: "65536 \<le> n" "n < 1114112"
    using assms unfolding n_def by (cases "a = 0"; cases "a = 4"; auto)+
  have d1: "n div 64 = (a * 64 + b) * 64 + c" and d0: "n mod 64 = d"
    unfolding e using sextet [OF assms(4)] by blast+
  have d2: "n div 4096 = a * 64 + b" and d2': "n div 64 mod 64 = c"
    using sextet [OF assms(3), of "a * 64 + b"] d1 div_mult2_eq [of n 64 64] by auto
  have d3: "n div 262144 = a" and d3': "n div 4096 mod 64 = b"
    using sextet [OF assms(2), of a] d2 div_mult2_eq [of n 4096 64] by auto
  show ?thesis using r d0 d2' d3 d3' unfolding n_def [symmetric]
    by (simp add: utf8_encode_cp_def)
qed



lemma mod_shift: "q * m \<le> c \<Longrightarrow> c < q * m + m \<Longrightarrow> c mod m = c - q * (m::nat)"
proof -
  assume a: "q * m \<le> c" and b: "c < q * m + m"
  have "c mod m = (q * m + (c - q * m)) mod m" using a by simp
  also have "\<dots> = (c - q * m) mod m" by (simp only: mod_mult_self3)
  also have "\<dots> = c - q * m" using a b by simp
  finally show ?thesis .
qed

lemma lead2: "0xC2 \<le> c \<Longrightarrow> c < 0xE0 \<Longrightarrow> 2 \<le> c mod 32 \<and> 0xC0 + c mod 32 = (c::nat)"
  using mod_shift [of 6 32 c] by simp

lemma lead3:
  "0xE0 \<le> c \<Longrightarrow> c < 0xF0 \<Longrightarrow>
   0xE0 + c mod 16 = (c::nat) \<and> (c mod 16 = 0 \<longleftrightarrow> c = 0xE0) \<and> (c mod 16 = 13 \<longleftrightarrow> c = 0xED)"
  using mod_shift [of 14 16 c] by auto

lemma lead4:
  "0xF0 \<le> c \<Longrightarrow> c < 0xF5 \<Longrightarrow>
   c mod 8 < 5 \<and> 0xF0 + c mod 8 = (c::nat) \<and> (c mod 8 = 0 \<longleftrightarrow> c = 0xF0) \<and> (c mod 8 = 4 \<longleftrightarrow> c = 0xF4)"
  using mod_shift [of 30 8 c] by auto

lemma cont:
  "0x80 \<le> c \<Longrightarrow> c < 0xC0 \<Longrightarrow>
   0x80 + c mod 64 = (c::nat) \<and> (c mod 64 < 32 \<longleftrightarrow> c < 0xA0) \<and> (c mod 64 < 16 \<longleftrightarrow> c < 0x90)"
  using mod_shift [of 2 64 c] by auto

lemma byte_of_unat: "n = unat (b::byte) \<Longrightarrow> of_nat n = b"
  by simp

lemma enc2b:
  assumes "0xC2 \<le> unat b0" "unat b0 < 0xE0" "is_cont b1"
  shows "utf8_encode_cp (unat b0 mod 32 * 64 + unat b1 mod 64) = Some [b0, b1]"
proof -
  have c1: "0x80 \<le> unat b1" "unat b1 < 0xC0" using assms(3) by (simp_all add: is_cont_def)
  note l = lead2 [OF assms(1,2)] and k1 = cont [OF c1]
  have "utf8_encode_cp (unat b0 mod 32 * 64 + unat b1 mod 64)
        = Some [of_nat (0xC0 + unat b0 mod 32), of_nat (0x80 + unat b1 mod 64)]"
    using l by (intro enc2) simp_all
  also have "of_nat (0xC0 + unat b0 mod 32) = b0" using l by (intro byte_of_unat) simp
  also have "of_nat (0x80 + unat b1 mod 64) = b1" using k1 by (intro byte_of_unat) simp
  finally show ?thesis .
qed

lemma enc3b:
  assumes "0xE0 \<le> unat b0" "unat b0 < 0xF0" "is_cont b1" "is_cont b2"
    and "unat b0 = 0xE0 \<Longrightarrow> 0xA0 \<le> unat b1" "unat b0 = 0xED \<Longrightarrow> unat b1 < 0xA0"
  shows "utf8_encode_cp (unat b0 mod 16 * 4096 + unat b1 mod 64 * 64 + unat b2 mod 64)
         = Some [b0, b1, b2]"
proof -
  have c1: "0x80 \<le> unat b1" "unat b1 < 0xC0" using assms(3) by (simp_all add: is_cont_def)
  have c2: "0x80 \<le> unat b2" "unat b2 < 0xC0" using assms(4) by (simp_all add: is_cont_def)
  note l = lead3 [OF assms(1,2)] and k1 = cont [OF c1] and k2 = cont [OF c2]
  have "utf8_encode_cp (unat b0 mod 16 * 4096 + unat b1 mod 64 * 64 + unat b2 mod 64)
        = Some [of_nat (0xE0 + unat b0 mod 16), of_nat (0x80 + unat b1 mod 64),
                of_nat (0x80 + unat b2 mod 64)]"
  proof (intro enc3)
    show "unat b0 mod 16 = 0 \<Longrightarrow> 32 \<le> unat b1 mod 64" using l k1 assms(5) by auto
    show "unat b0 mod 16 = 13 \<Longrightarrow> unat b1 mod 64 < 32" using l k1 assms(6) by auto
  qed simp_all
  also have "of_nat (0xE0 + unat b0 mod 16) = b0" using l by (intro byte_of_unat) simp
  also have "of_nat (0x80 + unat b1 mod 64) = b1" using k1 by (intro byte_of_unat) simp
  also have "of_nat (0x80 + unat b2 mod 64) = b2" using k2 by (intro byte_of_unat) simp
  finally show ?thesis .
qed

lemma enc4b:
  assumes "0xF0 \<le> unat b0" "unat b0 < 0xF5" "is_cont b1" "is_cont b2" "is_cont b3"
    and "unat b0 = 0xF0 \<Longrightarrow> 0x90 \<le> unat b1" "unat b0 = 0xF4 \<Longrightarrow> unat b1 < 0x90"
  shows "utf8_encode_cp (unat b0 mod 8 * 262144 + unat b1 mod 64 * 4096
                          + unat b2 mod 64 * 64 + unat b3 mod 64)
         = Some [b0, b1, b2, b3]"
proof -
  have c1: "0x80 \<le> unat b1" "unat b1 < 0xC0" using assms(3) by (simp_all add: is_cont_def)
  have c2: "0x80 \<le> unat b2" "unat b2 < 0xC0" using assms(4) by (simp_all add: is_cont_def)
  have c3: "0x80 \<le> unat b3" "unat b3 < 0xC0" using assms(5) by (simp_all add: is_cont_def)
  note l = lead4 [OF assms(1,2)] and k1 = cont [OF c1] and k2 = cont [OF c2] and k3 = cont [OF c3]
  have "utf8_encode_cp (unat b0 mod 8 * 262144 + unat b1 mod 64 * 4096
                          + unat b2 mod 64 * 64 + unat b3 mod 64)
        = Some [of_nat (0xF0 + unat b0 mod 8), of_nat (0x80 + unat b1 mod 64),
                of_nat (0x80 + unat b2 mod 64), of_nat (0x80 + unat b3 mod 64)]"
  proof (intro enc4)
    show "unat b0 mod 8 < 5" using l by simp
    show "unat b0 mod 8 = 0 \<Longrightarrow> 16 \<le> unat b1 mod 64" using l k1 assms(6) by auto
    show "unat b0 mod 8 = 4 \<Longrightarrow> unat b1 mod 64 < 16" using l k1 assms(7) by auto
  qed simp_all
  also have "of_nat (0xF0 + unat b0 mod 8) = b0" using l by (intro byte_of_unat) simp
  also have "of_nat (0x80 + unat b1 mod 64) = b1" using k1 by (intro byte_of_unat) simp
  also have "of_nat (0x80 + unat b2 mod 64) = b2" using k2 by (intro byte_of_unat) simp
  also have "of_nat (0x80 + unat b3 mod 64) = b3" using k3 by (intro byte_of_unat) simp
  finally show ?thesis .
qed



lemma utf8_next_encode:
  assumes "utf8_next bs = Scalar c n"
  shows "utf8_encode_cp c = Some (take n bs)"
proof (cases bs)
  case Nil
  with assms show ?thesis by simp
next
  case (Cons b0 rest)
  show ?thesis
    using assms unfolding Cons
    by (auto simp: Let_def enc1 enc2b enc3b enc4b split: list.splits if_splits)
qed

declare utf8_decode.simps [simp del] utf8_decode_replace.simps [simp del] nat_digits.simps [simp del]

lemma utf8_decode_encode: "utf8_decode bs = Some s \<Longrightarrow> utf8_encode s = Some bs"
proof (induction bs arbitrary: s rule: utf8_decode.induct)
  case (1 bs)
  show ?case
  proof (cases "bs = []")
    case True
    with "1.prems" show ?thesis by (simp add: utf8_decode.simps)
  next
    case False
    with "1.prems" obtain c n cs where
      nx: "utf8_next bs = Scalar c n" and rest: "utf8_decode (drop n bs) = Some cs" and s: "s = c # cs"
      by (auto simp: utf8_decode.simps [of bs] split: utf8_item.splits option.splits)
    from "1.IH" [OF False nx rest] have "utf8_encode cs = Some (drop n bs)" .
    with utf8_next_encode [OF nx] show ?thesis by (simp add: s)
  qed
qed

lemma utf8_decode_replace_valid: "utf8_decode bs = Some s \<Longrightarrow> utf8_decode_replace bs = s"
proof (induction bs arbitrary: s rule: utf8_decode.induct)
  case (1 bs)
  show ?case
  proof (cases "bs = []")
    case True
    with "1.prems" show ?thesis by (simp add: utf8_decode.simps utf8_decode_replace.simps)
  next
    case False
    with "1.prems" obtain c n cs where
      nx: "utf8_next bs = Scalar c n" and rest: "utf8_decode (drop n bs) = Some cs" and s: "s = c # cs"
      by (auto simp: utf8_decode.simps [of bs] split: utf8_item.splits option.splits)
    from "1.IH" [OF False nx rest] have "utf8_decode_replace (drop n bs) = cs" .
    with nx False show ?thesis by (simp add: s utf8_decode_replace.simps [of bs])
  qed
qed

lemma utf8_encode_Some: "utf8_encode s = Some bs \<Longrightarrow> utf8_bytes s = bs"
  by (simp add: utf8_bytes_def)

lemma utf8_encode_replace_total: "utf8_encode (utf8_decode_replace bs) \<noteq> None"
proof (induction bs rule: utf8_decode_replace.induct)
  case (1 bs)
  show ?case
  proof (cases "bs = []")
    case True
    then show ?thesis by (simp add: utf8_decode_replace.simps)
  next
    case False
    show ?thesis
    proof (cases "utf8_next bs")
      case (Scalar c n)
      from "1.IH"(1) [OF False Scalar] utf8_next_encode [OF Scalar] False Scalar
      show ?thesis by (auto simp: utf8_decode_replace.simps [of bs])
    next
      case (Malformed n)
      have "utf8_encode_cp 0xFFFD = Some [0xEF, 0xBF, 0xBD]" by (simp add: utf8_encode_cp_def)
      with "1.IH"(2) [OF False Malformed] False Malformed
      show ?thesis by (auto simp: utf8_decode_replace.simps [of bs])
    qed
  qed
qed

lemma utf8_encode_replace:
  "utf8_encode (utf8_decode_replace bs) = Some (utf8_bytes (utf8_decode_replace bs))"
  using utf8_encode_replace_total [of bs] by (auto simp: utf8_bytes_def)

lemma utf8_encode_append:
  "utf8_encode (a @ b) =
     (case utf8_encode a of
        None \<Rightarrow> None
      | Some x \<Rightarrow> (case utf8_encode b of None \<Rightarrow> None | Some y \<Rightarrow> Some (x @ y)))"
  by (induction a) (auto split: option.splits)

lemma utf8_encode_small:
  "\<forall>c\<in>set s. c < 0xD800 \<Longrightarrow> utf8_encode s = Some (utf8_bytes s)"
  by (induction s) (auto simp: utf8_bytes_def utf8_encode_cp_def split: option.splits)

lemma latin1_small: "\<forall>c\<in>set (latin1 s). c < 256"
proof -
  have "(of_char c :: nat) < 256" for c by (cases c) simp
  then show ?thesis by (auto simp: latin1_def)
qed

lemma utf8_encode_latin1: "utf8_encode (latin1 s) = Some (utf8_bytes (latin1 s))"
  using latin1_small [of s] by (intro utf8_encode_small) force

lemma utf8_decode_ascii:
  "\<forall>b\<in>set bs. unat b < 0x80 \<Longrightarrow> utf8_decode bs = Some (map unat bs)"
proof (induction bs)
  case Nil
  show ?case by (simp add: utf8_decode.simps)
next
  case (Cons b bs)
  then show ?case by (simp add: utf8_decode.simps [of "b # bs"] Let_def)
qed

lemma b64_alphabet_ascii: "\<forall>c\<in>set b64_alphabet. (of_char c :: nat) < 0x80"
proof -
  have "list_all (\<lambda>c. (of_char c :: nat) < 0x80) b64_alphabet"
    by (simp add: b64_alphabet_def)
  then show ?thesis by (simp only: list_all_iff)
qed

lemma of_char_small: "(of_char c :: nat) < 256"
  by (cases c) simp

lemma unat_of_char_byte: "unat (of_char c :: byte) = of_char c"
proof -
  have "unat (of_nat (of_char c) :: byte) = of_char c mod 256"
    by (simp only: unat_of_nat) simp
  then show ?thesis using of_char_small [of c] by (simp only: of_nat_of_char mod_less)
qed

lemma b64_char_ascii: "unat (b64_char i) < 0x80"
proof -
  have "unat (i AND 63) \<le> unat (63 :: u32)"
    by (rule word_and_le1 [THEN word_le_nat_alt [THEN iffD1]])
  then have "unat (i AND 63) < length b64_alphabet" by (simp add: b64_alphabet_def)
  then have "b64_alphabet ! unat (i AND 63) \<in> set b64_alphabet" by (rule nth_mem)
  with b64_alphabet_ascii show ?thesis by (simp add: b64_char_def unat_of_char_byte)
qed

lemma b64encode_ascii: "\<forall>b\<in>set (b64encode bs). unat b < 0x80"
  by (induction bs rule: b64encode.induct) (simp_all add: Let_def b64_char_ascii)

lemma utf8_decode_b64encode: "utf8_decode (b64encode bs) = Some (map unat (b64encode bs))"
  by (rule utf8_decode_ascii) (rule b64encode_ascii)

lemma split_on_nonempty: "split_on sep xs \<noteq> []"
  by (induction xs) (auto split: list.splits)

lemma split_on_absent: "sep \<notin> set p \<Longrightarrow> split_on sep p = [p]"
  by (induction p) auto

lemma split_on_first: "sep \<notin> set p \<Longrightarrow> split_on sep (p @ sep # q) = p # split_on sep q"
  by (induction p) auto

lemma hd_split_on: "hd (split_on sep q) = takeWhile (\<lambda>c. c \<noteq> sep) q"
  by (induction q) (auto split: list.splits simp: split_on_nonempty)

section \<open>Lemmas: the signer and the handler\<close>

lemma latin1_append: "latin1 (a @ b) = latin1 a @ latin1 b"
  by (simp add: latin1_def)

lemma str_upper_small: "\<forall>c\<in>set s. c < 256 \<Longrightarrow> \<forall>c\<in>set (str_upper s). c < 256"
  by (auto simp: str_upper_def)

lemma str_upper_GET: "str_upper (latin1 ''GET'') = latin1 ''GET''"
  by (simp add: str_upper_def latin1_def)

lemma str_upper_POST: "str_upper (latin1 ''POST'') = latin1 ''POST''"
  by (simp add: str_upper_def latin1_def)

lemma GET_not_POST: "latin1 ''GET'' \<noteq> latin1 ''POST''"
  by (simp add: latin1_def)

lemma utf8_encode_append_Some:
  "utf8_encode a = Some x \<Longrightarrow> utf8_encode b = Some y \<Longrightarrow> utf8_encode (a @ b) = Some (x @ y)"
  by (simp add: utf8_encode_append)

lemma generate_signature_latin1:
  assumes "utf8_encode b = Some raw"
  shows "generate_signature (latin1 s) (latin1 t) (latin1 m) (latin1 p) b
         = Inr (map unat (b64encode (hmac_sha256 (text_bytes s)
                  (utf8_bytes (latin1 t @ str_upper (latin1 m) @ latin1 p) @ raw))))"
proof -
  let ?x = "latin1 t @ str_upper (latin1 m) @ latin1 p"
  have small: "\<forall>c\<in>set ?x. c < 256"
    using latin1_small [of t] latin1_small [of p] str_upper_small [OF latin1_small [of m]]
    by auto
  have "\<forall>c\<in>set ?x. c < 0xD800"
  proof
    fix c assume "c \<in> set ?x"
    with small have "c < 256" by blast
    then show "c < 0xD800" by simp
  qed
  then have x: "utf8_encode ?x = Some (utf8_bytes ?x)" by (rule utf8_encode_small)
  have msg: "utf8_encode (latin1 t @ str_upper (latin1 m) @ latin1 p @ b)
             = Some (utf8_bytes ?x @ raw)"
    using utf8_encode_append_Some [OF x assms] by (simp only: append_assoc)
  show ?thesis
    unfolding generate_signature_def Let_def
    by (simp add: utf8_encode_latin1 msg utf8_decode_b64encode text_bytes_def)
qed

lemma end_headers_eq: "end_headers r = r\<lparr>sent_headers := sent_headers r @ cors_headers\<rparr>"
  by (simp add: end_headers_def send_header_def cors_headers_def Let_def)

lemma json_reply_eq:
  "json_reply code =
     \<lparr>status = code, sent_headers = (''Content-Type'', ''application/json'') # cors_headers, body = []\<rparr>"
  by (simp add: json_reply_def end_headers_eq send_header_def send_response_def)

lemma calls_proxy_request: "calls (proxy_request env m req) = snd (proxy_try env m req)"
  by (cases "proxy_try env m req")
     (auto simp: proxy_request_def Let_def split: sum.splits exn.splits)

lemma proxy_try_calls:
  "snd (proxy_try env m req) = [] \<or> (\<exists>out. snd (proxy_try env m req) = [out])"
  by (auto simp: proxy_try_def Let_def split: sum.splits)

lemma base_path_cases:
  assumes "CHR ''?'' \<notin> set P" and "path req = P \<or> path req = P @ ''?'' @ Q"
  shows "base_path req = P"
  using assms split_on_absent [of "CHR ''?''" P] split_on_first [of "CHR ''?''" P Q]
  by (auto simp: base_path_def)

lemma sign_path_POST: "sign_path ''POST'' req = base_path req"
  by (simp add: sign_path_def str_upper_def latin1_def)

lemma sign_body_POST: "sign_body ''POST'' b = b"
  by (simp add: sign_body_def str_upper_POST)

lemma sign_body_GET: "sign_body ''GET'' b = []"
  by (simp add: sign_body_def str_upper_def latin1_def)

lemma authenticated_iff:
  "authenticated req \<longleftrightarrow>
     (\<exists>k s p. headers_get (req_headers req) ''ACCESS-KEY'' = Some k \<and> k \<noteq> []
            \<and> headers_get (req_headers req) ''ACCESS-SIGN'' = Some s \<and> s \<noteq> []
            \<and> headers_get (req_headers req) ''ACCESS-PASSPHRASE'' = Some p \<and> p \<noteq> [])"
  by (auto simp: authenticated_def headers_get_or_def split: option.splits)

lemma forward_headers_public:
  "\<not> authenticated req \<Longrightarrow>
   forward_headers env m req b
   = Inr [(''Content-Type'', latin1 ''application/json''),
          (''locale'', latin1 (headers_get_or (req_headers req) ''locale'' ''en-US''))]"
  by (simp add: forward_headers_def Let_def)

lemma forward_headers_signed:
  assumes "headers_get (req_headers req) ''ACCESS-KEY'' = Some k" "k \<noteq> []"
    and "headers_get (req_headers req) ''ACCESS-SIGN'' = Some s" "s \<noteq> []"
    and "headers_get (req_headers req) ''ACCESS-PASSPHRASE'' = Some p" "p \<noteq> []"
    and "utf8_encode (sign_body m b) = Some raw"
  shows "forward_headers env m req b
   = Inr [(''Content-Type'', latin1 ''application/json''),
          (''locale'', latin1 (headers_get_or (req_headers req) ''locale'' ''en-US'')),
          (''ACCESS-KEY'', latin1 k),
          (''ACCESS-SIGN'',
             spec_signature s
               (utf8_bytes (latin1 (str_of_int (clock_ms env)) @ str_upper (latin1 m)
                            @ latin1 (sign_path m req)) @ raw)),
          (''ACCESS-PASSPHRASE'', latin1 p),
          (''ACCESS-TIMESTAMP'', latin1 (str_of_int (clock_ms env)))]"
proof -
  have a: "authenticated req" using assms by (auto simp: authenticated_iff)
  show ?thesis
    using assms(1,3,5)
    by (simp add: forward_headers_def Let_def a headers_get_or_def spec_signature_def
          generate_signature_latin1 [OF assms(7)])
qed

lemma read_body_cases:
  assumes "content_length req = Inr n"
    and "raw = (if 0 < n then take (nat n) (rfile req) else [])"
    and "utf8_decode raw = Some b"
  shows "read_body req = Inr b"
  using assms by (auto simp: read_body_def Let_def utf8_decode.simps [of "[]"])

lemma request_data_decoded:
  "utf8_decode raw = Some b \<Longrightarrow> request_data b = Inr (if b = [] then None else Some raw)"
  by (auto simp: request_data_def dest: utf8_decode_encode)

lemma proxy_try_forwards:
  assumes "read_body req = Inr b" "forward_headers env m req b = Inr hs" "request_data b = Inr d"
  shows "snd (proxy_try env m req)
         = [\<lparr>url = WEEX_API_BASE @ path req, data = d, out_headers = hs, out_method = m, timeout_s = 30\<rparr>]"
  using assms by (simp add: proxy_try_def Let_def split: sum.splits)

lemma utf8_decode_Nil_iff: "utf8_decode raw = Some b \<Longrightarrow> b = [] \<longleftrightarrow> raw = []"
  using utf8_decode_encode [of raw b] by (auto simp: utf8_decode.simps [of "[]"])

lemma text_bytes_message:
  "utf8_bytes (latin1 t @ latin1 m @ latin1 p) = text_bytes (t @ m @ p)"
  by (simp add: text_bytes_def latin1_append)

lemmas eval_defs =
  headers_get_def headers_get_or_def ascii_lower_def char_of_def bit_Suc_0_iff
  credentials_def content_length_def py_int_def str_strip_def is_space_def is_digit_def
  digit_val_def str_of_int_def nat_digits.simps digit_char_def sample_env_def

lemma read_body_encodable: "read_body req = Inr b \<Longrightarrow> utf8_encode b = Some (utf8_bytes b)"
  by (auto simp: read_body_def Let_def utf8_bytes_def split: sum.splits if_splits option.splits
           dest: utf8_decode_encode)

lemma request_data_encodable:
  "utf8_encode b = Some (utf8_bytes b) \<Longrightarrow>
   request_data b = Inr (if b = [] then None else Some (utf8_bytes b))"
  by (simp add: request_data_def)

lemma sign_path_GET:
  "sign_path ''GET'' req =
     (if query_string req \<noteq> [] then base_path req @ ''?'' @ query_string req else base_path req)"
  by (simp add: sign_path_def str_upper_GET)

lemma sign_path_GET_plain: "CHR ''?'' \<notin> set (path req) \<Longrightarrow> sign_path ''GET'' req = path req"
  by (simp add: sign_path_GET query_string_def base_path_def split_on_absent)

lemma query_string_first:
  "CHR ''?'' \<notin> set P \<Longrightarrow> path req = P @ ''?'' @ Q \<Longrightarrow>
   query_string req = takeWhile (\<lambda>c. c \<noteq> CHR ''?'') Q"
  using split_on_nonempty [of "CHR ''?''" Q] hd_split_on [of "CHR ''?''" Q]
  by (cases "split_on CHR ''?'' Q") (simp_all add: query_string_def split_on_first Let_def)

lemma sign_path_GET_query:
  assumes "CHR ''?'' \<notin> set P" "path req = P @ ''?'' @ Q" "CHR ''?'' \<notin> set Q" "Q \<noteq> []"
  shows "sign_path ''GET'' req = P @ ''?'' @ Q"
proof -
  have "takeWhile (\<lambda>c. c \<noteq> CHR ''?'') Q = Q" using assms(3) by auto
  then have "query_string req = Q" using query_string_first [OF assms(1,2)] by simp
  moreover have "base_path req = P" using base_path_cases [OF assms(1), of req Q] assms(2) by simp
  ultimately show ?thesis using assms(4) by (simp add: sign_path_GET)
qed

lemma get_call:
  assumes "headers_get (req_headers req) ''ACCESS-KEY'' = Some k" and "k \<noteq> []"
    and "headers_get (req_headers req) ''ACCESS-SIGN'' = Some s" and "s \<noteq> []"
    and "headers_get (req_headers req) ''ACCESS-PASSPHRASE'' = Some p" and "p \<noteq> []"
    and "read_body req = Inr b"
  shows "calls (proxy_request env ''GET'' req) =
           [\<lparr>url = WEEX_API_BASE @ path req,
             data = (if b = [] then None else Some (utf8_bytes b)),
             out_headers =
               [(''Content-Type'', latin1 ''application/json''),
                (''locale'', latin1 (headers_get_or (req_headers req) ''locale'' ''en-US'')),
                (''ACCESS-KEY'', latin1 k),
                (''ACCESS-SIGN'',
                   spec_signature s
                     (text_bytes (str_of_int (clock_ms env) @ ''GET'' @ sign_path ''GET'' req))),
                (''ACCESS-PASSPHRASE'', latin1 p),
                (''ACCESS-TIMESTAMP'', latin1 (str_of_int (clock_ms env)))],
             out_method = ''GET'', timeout_s = 30\<rparr>]"
proof -
  have enc: "utf8_encode (sign_body ''GET'' b) = Some []" by (simp add: sign_body_GET)
  have fh: "forward_headers env ''GET'' req b =
        Inr [(''Content-Type'', latin1 ''application/json''),
             (''locale'', latin1 (headers_get_or (req_headers req) ''locale'' ''en-US'')),
             (''ACCESS-KEY'', latin1 k),
             (''ACCESS-SIGN'',
                spec_signature s
                  (text_bytes (str_of_int (clock_ms env) @ ''GET'' @ sign_path ''GET'' req))),
             (''ACCESS-PASSPHRASE'', latin1 p),
             (''ACCESS-TIMESTAMP'', latin1 (str_of_int (clock_ms env)))]"
    using forward_headers_signed [OF assms(1-6) enc, of env]
    by (simp only: str_upper_GET text_bytes_message append_Nil2)
  note rd = request_data_encodable [OF read_body_encodable [OF assms(7)]]
  show ?thesis
    by (simp only: calls_proxy_request proxy_try_forwards [OF assms(7) fh rd])
qed

lemma sample_clock: "str_of_int (clock_ms (sample_env up)) = ''1700000000000''"
  by (simp add: eval_defs)

lemma utf8_bytes_ascii: "list_all (\<lambda>c. c < 0x80) s \<Longrightarrow> utf8_bytes s = map of_nat s"
  by (induction s) (auto simp: utf8_bytes_def utf8_encode_cp_def split: option.splits)

lemma all_credentials_iff: "all_credentials req \<longleftrightarrow> authenticated req"
  by (auto simp: all_credentials_def credential_present_def authenticated_iff split: option.splits)

lemma sign_body_encodable:
  "utf8_encode b = Some (utf8_bytes b) \<Longrightarrow> \<exists>raw. utf8_encode (sign_body m b) = Some raw"
  by (simp add: sign_body_def)

lemma forward_headers_names:
  assumes "utf8_encode b = Some (utf8_bytes b)"
  shows "\<exists>hs. forward_headers env m req b = Inr hs
           \<and> (if all_credentials req
                then map fst hs = [''Content-Type'', ''locale'', ''ACCESS-KEY'', ''ACCESS-SIGN'',
                                   ''ACCESS-PASSPHRASE'', ''ACCESS-TIMESTAMP'']
                else hs = [(''Content-Type'', latin1 ''application/json''),
                           (''locale'', latin1 (headers_get_or (req_headers req) ''locale'' ''en-US''))])"
proof (cases "authenticated req")
  case True
  then obtain k s p where c:
    "headers_get (req_headers req) ''ACCESS-KEY'' = Some k" "k \<noteq> []"
    "headers_get (req_headers req) ''ACCESS-SIGN'' = Some s" "s \<noteq> []"
    "headers_get (req_headers req) ''ACCESS-PASSPHRASE'' = Some p" "p \<noteq> []"
    by (auto simp: authenticated_iff)
  from sign_body_encodable [OF assms] obtain raw where "utf8_encode (sign_body m b) = Some raw" ..
  from forward_headers_signed [OF c this, of env] True show ?thesis
    by (simp add: all_credentials_iff)
next
  case False
  then show ?thesis by (simp add: forward_headers_public all_credentials_iff)
qed

lemma proxy_try_call:
  assumes "out \<in> set (snd (proxy_try env m req))"
  shows "\<exists>b hs. read_body req = Inr b \<and> forward_headers env m req b = Inr hs
            \<and> out = \<lparr>url = WEEX_API_BASE @ path req,
                      data = (if b = [] then None else Some (utf8_bytes b)),
                      out_headers = hs, out_method = m, timeout_s = 30\<rparr>
            \<and> proxy_try env m req =
                (case urlopen env out of
                   Inl e \<Rightarrow> (Inl e, [out])
                 | Inr resp \<Rightarrow> (Inr (relay resp), [out]))"
proof -
  from assms obtain b where b: "read_body req = Inr b"
    by (cases "read_body req") (auto simp: proxy_try_def)
  from assms b obtain hs where hs: "forward_headers env m req b = Inr hs"
    by (cases "forward_headers env m req b") (auto simp: proxy_try_def)
  note rd = request_data_encodable [OF read_body_encodable [OF b]]
  define oc where "oc = \<lparr>url = WEEX_API_BASE @ path req,
                       data = (if b = [] then None else Some (utf8_bytes b)),
                       out_headers = hs, out_method = m, timeout_s = 30\<rparr>"
  have pt: "proxy_try env m req =
              (case urlopen env oc of
                 Inl e \<Rightarrow> (Inl e, [oc])
               | Inr resp \<Rightarrow> (Inr (relay resp), [oc]))"
    by (auto simp: proxy_try_def b hs rd Let_def oc_def split: sum.splits)
  then have "snd (proxy_try env m req) = [oc]" by (simp split: sum.splits)
  with assms have "out = oc" by simp
  with b hs pt show ?thesis unfolding oc_def by blast
qed

lemma proxy_request_raised:
  assumes "out \<in> set (calls (proxy_request env m req))" and "urlopen env out = Inl e"
  shows "proxy_try env m req = (Inl e, [out])"
proof -
  from assms(1) have "out \<in> set (snd (proxy_try env m req))" by (simp only: calls_proxy_request)
  from proxy_try_call [OF this] assms(2) show ?thesis by auto
qed

lemma get_ticker_call: "calls (proxy_request (sample_env up) ''GET'' get_ticker) = [public_ticker_call]"
proof -
  have rb: "read_body get_ticker = Inr []"
    by (simp add: read_body_def get_ticker_def eval_defs)
  have na: "\<not> authenticated get_ticker"
    by (simp add: authenticated_def get_ticker_def eval_defs)
  have fh: "forward_headers (sample_env up) ''GET'' get_ticker []
            = Inr [(''Content-Type'', latin1 ''application/json''), (''locale'', latin1 ''en-US'')]"
    by (simp add: forward_headers_public [OF na]) (simp add: get_ticker_def eval_defs)
  have rd: "request_data [] = Inr None" by (simp add: request_data_def)
  show ?thesis
    by (simp only: calls_proxy_request proxy_try_forwards [OF rb fh rd])
       (simp add: public_ticker_call_def WEEX_API_BASE_def get_ticker_def)
qed






section \<open>Examples\<close>

text \<open>
  The library functions of the model on small inputs, with the values the interpreter
  gives for them.
\<close>

lemma b64encode_foobar: "b64encode (map of_char ''foobar'') = map of_char ''Zm9vYmFy''"
  by (simp add: b64_char_def b64_group_def b64_alphabet_def Let_def)

lemma b64encode_padded: "b64encode (map of_char ''fo'') = map of_char ''Zm8=''"
  by (simp add: b64_char_def b64_group_def b64_alphabet_def Let_def)

lemma utf8_encode_example:
  "utf8_encode [0x20AC, 0x1F600] = Some [0xE2, 0x82, 0xAC, 0xF0, 0x9F, 0x98, 0x80]"
  by (simp add: utf8_encode_cp_def)

lemma utf8_encode_surrogate: "utf8_encode [0x41, 0xD800] = None"
  by (simp add: utf8_encode_cp_def)

lemma utf8_decode_replace_example:
  "utf8_decode_replace [0xE2, 0x82, 0xAC, 0xFF, 0x41, 0xE1, 0x80] = [0x20AC, 0xFFFD, 0x41, 0xFFFD]"
  by (simp add: utf8_decode_replace.simps is_cont_def)

lemma utf8_decode_strict_example: "utf8_decode [0x41, 0xC0, 0x80] = None"
  by (simp add: utf8_decode.simps)

lemma py_int_example: "py_int '' +1_024 '' = Some 1024 \<and> py_int ''12a'' = None \<and> py_int [] = None"
  by (simp add: eval_defs)

lemma str_of_int_example: "str_of_int 1700000000000 = ''1700000000000'' \<and> str_of_int (- 42) = ''-42''"
  by (simp add: eval_defs)

lemma split_on_example:
  "split_on CHR ''?'' ''/capi/x?a=1?b'' = [''/capi/x'', ''a=1'', ''b'']
   \<and> split_on CHR ''?'' ''/capi/x?'' = [''/capi/x'', []]
   \<and> split_on CHR ''?'' ''/capi/x'' = [''/capi/x'']"
  by simp

lemma getheader_example:
  "getheader [(''X-RateLimit-Limit'', ''10''), (''x-ratelimit-limit'', ''20'')] ''X-RateLimit-Limit''
   = Some ''10, 20''"
  by (simp add: getheader_def eval_defs)

lemma json_dumps_example:
  "json_dumps (error_envelope ''502'' (latin1 ''no route''))
   = (let q = [CHR 0x22]
      in ''{'' @ q @ ''code'' @ q @ '': '' @ q @ ''502'' @ q @ '', ''
         @ q @ ''msg'' @ q @ '': '' @ q @ ''no route'' @ q @ '', ''
         @ q @ ''requestTime'' @ q @ '': null, ''
         @ q @ ''data'' @ q @ '': null}'')"
  by (simp add: json_dumps_def error_envelope_def json_string_def json_atom_dumps_def
        json_escape_def latin1_def char_of_def bit_Suc_0_iff)

lemma json_string_example:
  "json_string [0x22, 0xE9, 0x0A, 0x1F600]
   = [CHR 0x22, CHR 0x5C, CHR 0x22] @ [CHR 0x5C] @ ''u00e9'' @ [CHR 0x5C] @ ''n''
     @ [CHR 0x5C] @ ''ud83d'' @ [CHR 0x5C] @ ''ude00'' @ [CHR 0x22]"
  by (simp add: json_string_def json_escape_def hex4_def hex_digit_def char_of_def bit_Suc_0_iff)

section \<open>The claims\<close>

text \<open>
  C1. For an authenticated \<open>GET\<close> with path \<open>P\<close> and query string \<open>Q\<close> the message signed
  is to be \<open>timestamp + "GET" + P + "?" + Q\<close>, with the whole query string as received.

  The handler splits the target at every question mark and signs the piece between the
  first and the second. A query string may hold a question mark (RFC 3986, 3.4); the
  target below has one in the value of \<open>note\<close>. The upstream call carries the whole
  target in its URL, and its signature covers the message that stops before \<open>?b\<close>.
\<close>

theorem get_second_question_mark:
  "path get_two_marks = ''/capi/v2/order/history?symbol=cmt_btcusdt&note=a?b''
   \<and> sign_path ''GET'' get_two_marks = ''/capi/v2/order/history?symbol=cmt_btcusdt&note=a''
   \<and> calls (proxy_request (sample_env upstream_ok) ''GET'' get_two_marks) =
       [\<lparr>url = ''https://api-contract.weex.com/capi/v2/order/history?symbol=cmt_btcusdt&note=a?b'',
         data = None,
         out_headers =
           [(''Content-Type'', latin1 ''application/json''),
            (''locale'', latin1 ''en-US''),
            (''ACCESS-KEY'', latin1 ''K''),
            (''ACCESS-SIGN'',
               spec_signature ''S''
                 (text_bytes ''1700000000000GET/capi/v2/order/history?symbol=cmt_btcusdt&note=a'')),
            (''ACCESS-PASSPHRASE'', latin1 ''P''),
            (''ACCESS-TIMESTAMP'', latin1 ''1700000000000'')],
         out_method = ''GET'', timeout_s = 30\<rparr>]"
proof -
  have k: "headers_get (req_headers get_two_marks) ''ACCESS-KEY'' = Some ''K''"
    and s: "headers_get (req_headers get_two_marks) ''ACCESS-SIGN'' = Some ''S''"
    and p: "headers_get (req_headers get_two_marks) ''ACCESS-PASSPHRASE'' = Some ''P''"
    and loc: "headers_get_or (req_headers get_two_marks) ''locale'' ''en-US'' = ''en-US''"
    by (simp_all add: get_two_marks_def eval_defs)
  have rb: "read_body get_two_marks = Inr []"
    by (simp add: read_body_def get_two_marks_def eval_defs)
  have sp: "sign_path ''GET'' get_two_marks = ''/capi/v2/order/history?symbol=cmt_btcusdt&note=a''"
    by (simp add: sign_path_GET query_string_def base_path_def get_two_marks_def)
  have pth: "path get_two_marks = ''/capi/v2/order/history?symbol=cmt_btcusdt&note=a?b''"
    by (simp add: get_two_marks_def)
  show ?thesis
    using get_call [OF k _ s _ p _ rb, of "sample_env upstream_ok"]
    by (simp add: sample_clock loc sp pth WEEX_API_BASE_def)
qed

text \<open>
  Where the query string holds no question mark and is not empty, the message signed is
  the one the claim describes.
\<close>

lemma get_query_signed:
  assumes "headers_get (req_headers req) ''ACCESS-KEY'' = Some k" and "k \<noteq> []"
    and "headers_get (req_headers req) ''ACCESS-SIGN'' = Some s" and "s \<noteq> []"
    and "headers_get (req_headers req) ''ACCESS-PASSPHRASE'' = Some p" and "p \<noteq> []"
    and "read_body req = Inr b"
    and "CHR ''?'' \<notin> set P" and "path req = P @ ''?'' @ Q"
    and "CHR ''?'' \<notin> set Q" and "Q \<noteq> []"
  shows "\<exists>out. calls (proxy_request env ''GET'' req) = [out]
           \<and> map_of (out_headers out) ''ACCESS-SIGN''
               = Some (spec_signature s
                         (text_bytes (str_of_int (clock_ms env) @ ''GET'' @ P @ ''?'' @ Q)))"
  using get_call [OF assms(1-7), of env] sign_path_GET_query [OF assms(8-11)]
  by simp

text \<open>
  C2 (as amended). When the upstream call raises \<open>HTTPError\<close> (a response outside 2xx),
  the caller receives the upstream status code and the upstream body decoded as UTF-8
  with \<open>errors='replace'\<close> and encoded again, never an envelope of the proxy's own: the
  same bytes when the upstream body is valid UTF-8.
\<close>

theorem upstream_error_passthrough:
  assumes "out \<in> set (calls (proxy_request env meth req))"
    and "urlopen env out = Inl (HTTPError code raw)"
  shows "reply (proxy_request env meth req) =
           Some \<lparr>status = code,
                 sent_headers = (''Content-Type'', ''application/json'') # cors_headers,
                 body = utf8_bytes (utf8_decode_replace raw)\<rparr>
         \<and> (utf8_decode raw \<noteq> None \<longrightarrow> utf8_bytes (utf8_decode_replace raw) = raw)"
proof
  show "reply (proxy_request env meth req) =
           Some \<lparr>status = code,
                 sent_headers = (''Content-Type'', ''application/json'') # cors_headers,
                 body = utf8_bytes (utf8_decode_replace raw)\<rparr>"
    using proxy_request_raised [OF assms]
    by (simp add: proxy_request_def utf8_encode_replace json_reply_eq wfile_write_def)
  show "utf8_decode raw \<noteq> None \<longrightarrow> utf8_bytes (utf8_decode_replace raw) = raw"
  proof
    assume "utf8_decode raw \<noteq> None"
    then obtain t where t: "utf8_decode raw = Some t" by blast
    from utf8_encode_Some [OF utf8_decode_encode [OF t]] utf8_decode_replace_valid [OF t]
    show "utf8_bytes (utf8_decode_replace raw) = raw" by simp
  qed
qed

theorem upstream_error_passthrough_witness:
  "public_ticker_call \<in> set (calls (proxy_request (sample_env upstream_denies) ''GET'' get_ticker))
   \<and> urlopen (sample_env upstream_denies) public_ticker_call
       = Inl (HTTPError 401 (map of_char ''denied''))
   \<and> utf8_decode (map of_char ''denied'') \<noteq> None
   \<and> reply (proxy_request (sample_env upstream_denies) ''GET'' get_ticker) =
       Some \<lparr>status = 401,
             sent_headers = (''Content-Type'', ''application/json'') # cors_headers,
             body = map of_char ''denied''\<rparr>"
proof -
  have c: "public_ticker_call \<in> set (calls (proxy_request (sample_env upstream_denies) ''GET'' get_ticker))"
    by (simp add: get_ticker_call)
  have u: "urlopen (sample_env upstream_denies) public_ticker_call
           = Inl (HTTPError 401 (map of_char ''denied''))"
    by (simp add: sample_env_def upstream_denies_def)
  have d: "utf8_decode (map of_char ''denied'') \<noteq> None"
    by (simp add: utf8_decode_ascii)
  from upstream_error_passthrough [OF c u] c u d show ?thesis by simp
qed

text \<open>
  The claim as written asks for the same bytes for every body. An upstream error body
  of the single byte \<open>0xFF\<close> reaches the caller as the three bytes of U+FFFD.
\<close>

theorem upstream_error_body_replaced:
  "calls (proxy_request (sample_env upstream_garbled) ''GET'' get_ticker) = [public_ticker_call]
   \<and> urlopen (sample_env upstream_garbled) public_ticker_call = Inl (HTTPError 400 [0xFF])
   \<and> reply (proxy_request (sample_env upstream_garbled) ''GET'' get_ticker) =
       Some \<lparr>status = 400,
             sent_headers = (''Content-Type'', ''application/json'') # cors_headers,
             body = [0xEF, 0xBF, 0xBD]\<rparr>"
proof -
  have c: "public_ticker_call \<in> set (calls (proxy_request (sample_env upstream_garbled) ''GET'' get_ticker))"
    by (simp add: get_ticker_call)
  have u: "urlopen (sample_env upstream_garbled) public_ticker_call = Inl (HTTPError 400 [0xFF])"
    by (simp add: sample_env_def upstream_garbled_def)
  have r: "utf8_decode_replace [0xFF] = [0xFFFD]"
    by (simp add: utf8_decode_replace.simps)
  from proxy_request_raised [OF c u] show ?thesis
    by (simp add: get_ticker_call u proxy_request_def r utf8_encode_cp_def json_reply_eq wfile_write_def)
qed

text \<open>
  C3. An authenticated \<open>POST\<close> is forwarded with the signature
  \<open>base64(HMAC-SHA256(secret, timestamp + "POST" + P + B))\<close>, where \<open>P\<close> is the path
  before the first question mark, whatever follows it, and \<open>B\<close> is the bytes of the body
  as received. The handler reads a body only under a positive \<open>Content-Length\<close>, and it
  forwards only a body that decodes as UTF-8.
\<close>

theorem post_signature:
  assumes "headers_get (req_headers req) ''ACCESS-KEY'' = Some k" and "k \<noteq> []"
    and "headers_get (req_headers req) ''ACCESS-SIGN'' = Some s" and "s \<noteq> []"
    and "headers_get (req_headers req) ''ACCESS-PASSPHRASE'' = Some p" and "p \<noteq> []"
    and "CHR ''?'' \<notin> set P" and "path req = P \<or> path req = P @ ''?'' @ Q"
    and "content_length req = Inr n"
    and "raw = (if 0 < n then take (nat n) (rfile req) else [])"
    and "utf8_decode raw \<noteq> None"
  shows "calls (proxy_request env ''POST'' req) =
           [\<lparr>url = WEEX_API_BASE @ path req,
             data = (if raw = [] then None else Some raw),
             out_headers =
               [(''Content-Type'', latin1 ''application/json''),
                (''locale'', latin1 (headers_get_or (req_headers req) ''locale'' ''en-US'')),
                (''ACCESS-KEY'', latin1 k),
                (''ACCESS-SIGN'',
                   spec_signature s (text_bytes (str_of_int (clock_ms env) @ ''POST'' @ P) @ raw)),
                (''ACCESS-PASSPHRASE'', latin1 p),
                (''ACCESS-TIMESTAMP'', latin1 (str_of_int (clock_ms env)))],
             out_method = ''POST'', timeout_s = 30\<rparr>]"
proof -
  from assms(11) obtain b where b: "utf8_decode raw = Some b" by blast
  have rb: "read_body req = Inr b" by (rule read_body_cases [OF assms(9,10) b])
  have enc: "utf8_encode (sign_body ''POST'' b) = Some raw"
    using utf8_decode_encode [OF b] by (simp add: sign_body_POST)
  have sp: "sign_path ''POST'' req = P"
    using base_path_cases [OF assms(7,8)] by (simp add: sign_path_POST)
  have fh: "forward_headers env ''POST'' req b =
        Inr [(''Content-Type'', latin1 ''application/json''),
             (''locale'', latin1 (headers_get_or (req_headers req) ''locale'' ''en-US'')),
             (''ACCESS-KEY'', latin1 k),
             (''ACCESS-SIGN'',
                spec_signature s (text_bytes (str_of_int (clock_ms env) @ ''POST'' @ P) @ raw)),
             (''ACCESS-PASSPHRASE'', latin1 p),
             (''ACCESS-TIMESTAMP'', latin1 (str_of_int (clock_ms env)))]"
    using forward_headers_signed [OF assms(1-6) enc, of env]
    by (simp only: sp str_upper_POST text_bytes_message)
  have rd: "request_data b = Inr (if raw = [] then None else Some raw)"
    using request_data_decoded [OF b] utf8_decode_Nil_iff [OF b] by simp
  show ?thesis
    by (simp only: calls_proxy_request proxy_try_forwards [OF rb fh rd])
qed

theorem post_signature_witness:
  "headers_get (req_headers post_order) ''ACCESS-SIGN'' = Some ''S''
   \<and> content_length post_order = Inr 24
   \<and> utf8_decode order_body \<noteq> None
   \<and> calls (proxy_request (sample_env upstream_ok) ''POST'' post_order) =
       [\<lparr>url = ''https://api-contract.weex.com/capi/v2/order/placeOrder?source=docs'',
         data = Some order_body,
         out_headers =
           [(''Content-Type'', latin1 ''application/json''),
            (''locale'', latin1 ''en-US''),
            (''ACCESS-KEY'', latin1 ''K''),
            (''ACCESS-SIGN'',
               spec_signature ''S''
                 (text_bytes ''1700000000000POST/capi/v2/order/placeOrder'' @ order_body)),
            (''ACCESS-PASSPHRASE'', latin1 ''P''),
            (''ACCESS-TIMESTAMP'', latin1 ''1700000000000'')],
         out_method = ''POST'', timeout_s = 30\<rparr>]"
proof -
  have k: "headers_get (req_headers post_order) ''ACCESS-KEY'' = Some ''K''"
    and s: "headers_get (req_headers post_order) ''ACCESS-SIGN'' = Some ''S''"
    and p: "headers_get (req_headers post_order) ''ACCESS-PASSPHRASE'' = Some ''P''"
    and loc: "headers_get_or (req_headers post_order) ''locale'' ''en-US'' = ''en-US''"
    by (simp_all add: post_order_def eval_defs)
  have n: "content_length post_order = Inr 24"
    by (simp add: post_order_def eval_defs)
  have raw: "order_body = (if 0 < (24::int) then take (nat 24) (rfile post_order) else [])"
    by (simp add: post_order_def order_body_def)
  have dec: "utf8_decode order_body \<noteq> None"
    by (simp add: utf8_decode_ascii order_body_def)
  have q: "CHR ''?'' \<notin> set ''/capi/v2/order/placeOrder''"
    by simp
  have pth: "path post_order = ''/capi/v2/order/placeOrder''
             \<or> path post_order = ''/capi/v2/order/placeOrder'' @ ''?'' @ ''source=docs''"
    by (simp add: post_order_def)
  have ts: "str_of_int (clock_ms (sample_env upstream_ok)) = ''1700000000000''"
    by (simp add: eval_defs)
  have ne: "order_body \<noteq> []"
    by (simp add: order_body_def)
  have url: "WEEX_API_BASE @ path post_order
             = ''https://api-contract.weex.com/capi/v2/order/placeOrder?source=docs''"
    by (simp add: WEEX_API_BASE_def post_order_def)
  show ?thesis
    using post_signature [OF k _ s _ p _ q pth n raw dec, of "sample_env upstream_ok"]
    by (simp add: s n dec ts loc ne url)
qed

text \<open>
  C4. An authenticated \<open>GET\<close> is signed over \<open>timestamp + "GET" + sign path\<close> and nothing
  else: the body read from the request, whatever it is, is forwarded but is no part of
  the message. Where the target holds no question mark the sign path is the target.
\<close>

theorem get_signature:
  assumes "headers_get (req_headers req) ''ACCESS-KEY'' = Some k" and "k \<noteq> []"
    and "headers_get (req_headers req) ''ACCESS-SIGN'' = Some s" and "s \<noteq> []"
    and "headers_get (req_headers req) ''ACCESS-PASSPHRASE'' = Some p" and "p \<noteq> []"
    and "read_body req = Inr b"
  shows "calls (proxy_request env ''GET'' req) =
           [\<lparr>url = WEEX_API_BASE @ path req,
             data = (if b = [] then None else Some (utf8_bytes b)),
             out_headers =
               [(''Content-Type'', latin1 ''application/json''),
                (''locale'', latin1 (headers_get_or (req_headers req) ''locale'' ''en-US'')),
                (''ACCESS-KEY'', latin1 k),
                (''ACCESS-SIGN'',
                   spec_signature s
                     (text_bytes (str_of_int (clock_ms env) @ ''GET'' @ sign_path ''GET'' req))),
                (''ACCESS-PASSPHRASE'', latin1 p),
                (''ACCESS-TIMESTAMP'', latin1 (str_of_int (clock_ms env)))],
             out_method = ''GET'', timeout_s = 30\<rparr>]
         \<and> (CHR ''?'' \<notin> set (path req) \<longrightarrow> sign_path ''GET'' req = path req)"
  using get_call [OF assms] sign_path_GET_plain [of req] by blast

theorem get_signature_witness:
  "headers_get (req_headers get_accounts) ''ACCESS-SIGN'' = Some ''S''
   \<and> read_body get_accounts = Inr (latin1 ''{}'')
   \<and> calls (proxy_request (sample_env upstream_ok) ''GET'' get_accounts) =
       [\<lparr>url = ''https://api-contract.weex.com/capi/v2/account/getAccounts'',
         data = Some (map of_char ''{}''),
         out_headers =
           [(''Content-Type'', latin1 ''application/json''),
            (''locale'', latin1 ''en-US''),
            (''ACCESS-KEY'', latin1 ''K''),
            (''ACCESS-SIGN'',
               spec_signature ''S'' (text_bytes ''1700000000000GET/capi/v2/account/getAccounts'')),
            (''ACCESS-PASSPHRASE'', latin1 ''P''),
            (''ACCESS-TIMESTAMP'', latin1 ''1700000000000'')],
         out_method = ''GET'', timeout_s = 30\<rparr>]"
proof -
  have k: "headers_get (req_headers get_accounts) ''ACCESS-KEY'' = Some ''K''"
    and s: "headers_get (req_headers get_accounts) ''ACCESS-SIGN'' = Some ''S''"
    and p: "headers_get (req_headers get_accounts) ''ACCESS-PASSPHRASE'' = Some ''P''"
    and loc: "headers_get_or (req_headers get_accounts) ''locale'' ''en-US'' = ''en-US''"
    by (simp_all add: get_accounts_def eval_defs)
  have n: "content_length get_accounts = Inr 2"
    by (simp add: get_accounts_def eval_defs)
  have "utf8_decode (map of_char ''{}'') = Some (latin1 ''{}'')"
    by (simp add: utf8_decode_ascii latin1_def)
  then have rb: "read_body get_accounts = Inr (latin1 ''{}'')"
    by (simp add: read_body_def n) (simp add: get_accounts_def)
  have body: "utf8_bytes (latin1 ''{}'') = map of_char ''{}''"
    by (simp add: utf8_bytes_ascii latin1_def)
  have ne: "latin1 ''{}'' \<noteq> []"
    by (simp add: latin1_def)
  have q: "CHR ''?'' \<notin> set (path get_accounts)"
    by (simp add: get_accounts_def)
  have pth: "path get_accounts = ''/capi/v2/account/getAccounts''"
    by (simp add: get_accounts_def)
  show ?thesis
    using get_signature [OF k _ s _ p _ rb, of "sample_env upstream_ok"] q
    by (simp add: s rb sample_clock loc ne body pth WEEX_API_BASE_def)
qed

text \<open>
  C5. Every upstream call of a request that lacks one of the three credential headers,
  or has it empty, carries the two headers \<open>Content-Type\<close> and \<open>locale\<close> and no other;
  a call carries the four authentication headers exactly when all three credentials are
  present. A request without all three whose body can be read is forwarded, unsigned.
\<close>

theorem credentials_decide_signing:
  "(\<forall>out\<in>set (calls (proxy_request env meth req)).
      if all_credentials req
      then map fst (out_headers out)
           = [''Content-Type'', ''locale'', ''ACCESS-KEY'', ''ACCESS-SIGN'',
              ''ACCESS-PASSPHRASE'', ''ACCESS-TIMESTAMP'']
      else out_headers out
           = [(''Content-Type'', latin1 ''application/json''),
              (''locale'', latin1 (headers_get_or (req_headers req) ''locale'' ''en-US''))])
   \<and> (\<not> all_credentials req \<and> read_body req = Inr b \<longrightarrow>
        calls (proxy_request env meth req)
        = [\<lparr>url = WEEX_API_BASE @ path req,
            data = (if b = [] then None else Some (utf8_bytes b)),
            out_headers =
              [(''Content-Type'', latin1 ''application/json''),
               (''locale'', latin1 (headers_get_or (req_headers req) ''locale'' ''en-US''))],
            out_method = meth, timeout_s = 30\<rparr>])"
proof (intro conjI ballI impI)
  fix out assume "out \<in> set (calls (proxy_request env meth req))"
  then have "out \<in> set (snd (proxy_try env meth req))" by (simp only: calls_proxy_request)
  from proxy_try_call [OF this] obtain b' hs where
    b': "read_body req = Inr b'" and hs: "forward_headers env meth req b' = Inr hs"
    and out: "out_headers out = hs"
    by auto
  from forward_headers_names [OF read_body_encodable [OF b'], of env meth req] hs out
  show "if all_credentials req
        then map fst (out_headers out)
             = [''Content-Type'', ''locale'', ''ACCESS-KEY'', ''ACCESS-SIGN'',
                ''ACCESS-PASSPHRASE'', ''ACCESS-TIMESTAMP'']
        else out_headers out
             = [(''Content-Type'', latin1 ''application/json''),
                (''locale'', latin1 (headers_get_or (req_headers req) ''locale'' ''en-US''))]"
    by auto
next
  assume a: "\<not> all_credentials req \<and> read_body req = Inr b"
  then have fh: "forward_headers env meth req b
                 = Inr [(''Content-Type'', latin1 ''application/json''),
                        (''locale'', latin1 (headers_get_or (req_headers req) ''locale'' ''en-US''))]"
    by (simp add: forward_headers_public all_credentials_iff)
  from a have rb: "read_body req = Inr b" by simp
  note rd = request_data_encodable [OF read_body_encodable [OF rb]]
  show "calls (proxy_request env meth req)
        = [\<lparr>url = WEEX_API_BASE @ path req,
            data = (if b = [] then None else Some (utf8_bytes b)),
            out_headers =
              [(''Content-Type'', latin1 ''application/json''),
               (''locale'', latin1 (headers_get_or (req_headers req) ''locale'' ''en-US''))],
            out_method = meth, timeout_s = 30\<rparr>]"
    by (simp only: calls_proxy_request proxy_try_forwards [OF rb fh rd])
qed

theorem credentials_decide_signing_witness:
  "\<not> all_credentials get_partial
   \<and> read_body get_partial = Inr []
   \<and> calls (proxy_request (sample_env upstream_ok) ''GET'' get_partial)
       = [\<lparr>url = ''https://api-contract.weex.com/capi/v2/account/getAccounts'',
           data = None,
           out_headers = [(''Content-Type'', latin1 ''application/json''),
                          (''locale'', latin1 ''en-US'')],
           out_method = ''GET'', timeout_s = 30\<rparr>]"
proof -
  have na: "\<not> all_credentials get_partial"
    by (simp add: all_credentials_def credential_present_def get_partial_def eval_defs)
  have rb: "read_body get_partial = Inr []"
    by (simp add: read_body_def get_partial_def eval_defs)
  have loc: "headers_get_or (req_headers get_partial) ''locale'' ''en-US'' = ''en-US''"
    by (simp add: get_partial_def eval_defs)
  have pth: "path get_partial = ''/capi/v2/account/getAccounts''"
    by (simp add: get_partial_def)
  show ?thesis
    using credentials_decide_signing [of "sample_env upstream_ok" "''GET''" get_partial "[]"] na rb
    by (simp add: loc pth WEEX_API_BASE_def)
qed

text \<open>
  C6 (as amended). When the upstream call raises \<open>URLError\<close> the caller receives status
  502 and the envelope with \<open>code = "502"\<close>, a message that ends with the reason of the
  failure, and \<open>null\<close> for \<open>requestTime\<close> and \<open>data\<close>.
\<close>

theorem connection_failure_502:
  assumes "out \<in> set (calls (proxy_request env meth req))"
    and "urlopen env out = Inl (URLError reason)"
  shows "reply (proxy_request env meth req) =
           Some \<lparr>status = 502,
                 sent_headers = (''Content-Type'', ''application/json'') # cors_headers,
                 body = text_bytes (json_dumps
                          [(latin1 ''code'', JString (latin1 ''502'')),
                           (latin1 ''msg'',
                              JString (latin1 ''Failed to connect to WEEX API: '' @ reason)),
                           (latin1 ''requestTime'', JNull),
                           (latin1 ''data'', JNull)])\<rparr>"
  using proxy_request_raised [OF assms]
  by (simp add: proxy_request_def utf8_encode_latin1 json_reply_eq wfile_write_def
        error_envelope_def text_bytes_def)

theorem connection_failure_502_witness:
  "public_ticker_call \<in> set (calls (proxy_request (sample_env upstream_down) ''GET'' get_ticker))
   \<and> urlopen (sample_env upstream_down) public_ticker_call
       = Inl (URLError (latin1 ''[Errno 111] Connection refused''))
   \<and> reply (proxy_request (sample_env upstream_down) ''GET'' get_ticker) =
       Some \<lparr>status = 502,
             sent_headers = (''Content-Type'', ''application/json'') # cors_headers,
             body = text_bytes (json_dumps
                      [(latin1 ''code'', JString (latin1 ''502'')),
                       (latin1 ''msg'',
                          JString (latin1 ''Failed to connect to WEEX API: ''
                                   @ latin1 ''[Errno 111] Connection refused'')),
                       (latin1 ''requestTime'', JNull),
                       (latin1 ''data'', JNull)])\<rparr>"
proof -
  have c: "public_ticker_call \<in> set (calls (proxy_request (sample_env upstream_down) ''GET'' get_ticker))"
    by (simp add: get_ticker_call)
  have u: "urlopen (sample_env upstream_down) public_ticker_call
           = Inl (URLError (latin1 ''[Errno 111] Connection refused''))"
    by (simp add: sample_env_def upstream_down_def)
  from connection_failure_502 [OF c u] c u show ?thesis by blast
qed

text \<open>
  The claim as written counts a timeout among the failures answered with 502. An
  upstream host that accepts the connection and sends nothing makes \<open>urlopen\<close> raise
  \<open>TimeoutError\<close>, which the \<open>URLError\<close> clause does not catch: the answer is 500.
\<close>

theorem read_timeout_500:
  "calls (proxy_request (sample_env upstream_silent) ''GET'' get_ticker) = [public_ticker_call]
   \<and> urlopen (sample_env upstream_silent) public_ticker_call = Inl TimeoutError
   \<and> reply (proxy_request (sample_env upstream_silent) ''GET'' get_ticker) =
       Some \<lparr>status = 500,
             sent_headers = (''Content-Type'', ''application/json'') # cors_headers,
             body = text_bytes (json_dumps
                      [(latin1 ''code'', JString (latin1 ''500'')),
                       (latin1 ''msg'', JString (latin1 ''Proxy error: '' @ latin1 ''timed out'')),
                       (latin1 ''requestTime'', JNull),
                       (latin1 ''data'', JNull)])\<rparr>"
proof -
  have c: "public_ticker_call \<in> set (calls (proxy_request (sample_env upstream_silent) ''GET'' get_ticker))"
    by (simp add: get_ticker_call)
  have u: "urlopen (sample_env upstream_silent) public_ticker_call = Inl TimeoutError"
    by (simp add: sample_env_def upstream_silent_def)
  have x: "exn_str (sample_env upstream_silent) TimeoutError = latin1 ''timed out''"
    by (simp add: sample_env_def)
  from proxy_request_raised [OF c u] show ?thesis
    by (simp add: get_ticker_call u x proxy_request_def utf8_encode_latin1 json_reply_eq
          wfile_write_def error_envelope_def text_bytes_def)
qed


text \<open>
  C8. \<open>OPTIONS\<close> on any target is answered with status 200, the five CORS headers and an
  empty body. No upstream call is made, and nothing of the environment (clock, upstream
  host) enters the answer.
\<close>

theorem options_preflight:
  "handle_command env ''OPTIONS'' req =
     \<lparr>reply = Some \<lparr>status = 200,
              sent_headers =
                [(''Access-Control-Allow-Origin'', ''*''),
                 (''Access-Control-Allow-Methods'', ''GET, POST, PUT, DELETE, OPTIONS''),
                 (''Access-Control-Allow-Headers'', ''*''),
                 (''Access-Control-Expose-Headers'', ''*''),
                 (''Cache-Control'', ''no-cache, no-store, must-revalidate'')],
              body = []\<rparr>,
      calls = []\<rparr>"
  by (simp add: handle_command_def do_OPTIONS_def end_headers_eq send_response_def cors_headers_def)



text \<open>
  C10. A request that announces a body (a positive \<open>Content-Length\<close>) whose bytes do not
  decode as UTF-8 is answered with status 500 and the envelope with \<open>code = "500"\<close>; no
  upstream call is made.
\<close>

theorem undecodable_body_500:
  assumes "content_length req = Inr n" and "0 < n"
    and "utf8_decode (take (nat n) (rfile req)) = None"
  shows "proxy_request env meth req =
           \<lparr>reply = Some \<lparr>status = 500,
                    sent_headers = (''Content-Type'', ''application/json'') # cors_headers,
                    body = text_bytes (json_dumps
                             [(latin1 ''code'', JString (latin1 ''500'')),
                              (latin1 ''msg'',
                                 JString (latin1 ''Proxy error: ''
                                          @ exn_str env (UnicodeDecodeError (take (nat n) (rfile req))))),
                              (latin1 ''requestTime'', JNull),
                              (latin1 ''data'', JNull)])\<rparr>,
            calls = []\<rparr>"
proof -
  have "read_body req = Inl (UnicodeDecodeError (take (nat n) (rfile req)))"
    using assms by (simp add: read_body_def Let_def)
  then have "proxy_try env meth req = (Inl (UnicodeDecodeError (take (nat n) (rfile req))), [])"
    by (simp add: proxy_try_def)
  then show ?thesis
    by (simp add: proxy_request_def utf8_encode_latin1 json_reply_eq wfile_write_def
          error_envelope_def text_bytes_def)
qed

theorem undecodable_body_500_witness:
  "content_length post_garbled = Inr 1
   \<and> utf8_decode (take (nat 1) (rfile post_garbled)) = None
   \<and> proxy_request (sample_env upstream_ok) ''POST'' post_garbled =
       \<lparr>reply = Some \<lparr>status = 500,
                sent_headers = (''Content-Type'', ''application/json'') # cors_headers,
                body = text_bytes (json_dumps
                         [(latin1 ''code'', JString (latin1 ''500'')),
                          (latin1 ''msg'', JString (latin1 ''Proxy error: '' @ latin1 ''error'')),
                          (latin1 ''requestTime'', JNull),
                          (latin1 ''data'', JNull)])\<rparr>,
        calls = []\<rparr>"
proof -
  have n: "content_length post_garbled = Inr 1"
    by (simp add: post_garbled_def eval_defs)
  have d: "utf8_decode (take (nat 1) (rfile post_garbled)) = None"
    by (simp add: post_garbled_def utf8_decode.simps)
  have x: "exn_str (sample_env upstream_ok) (UnicodeDecodeError bs) = latin1 ''error''" for bs
    by (simp add: sample_env_def)
  from undecodable_body_500 [OF n _ d, of "sample_env upstream_ok" "''POST''"] n d
  show ?thesis by (simp add: x)
qed

end
